theory Spec2Isabelle
  imports Complex_Main "HOL-Library.Word" "HOL-Library.Multiset" "HOL-Library.Product_Lexorder"
begin

unbundle bit_operations_syntax

section \<open>The environment of the pipeline\<close>

text \<open>
  The pipeline reads and writes files, prints, reads the clock and calls libraries.
  The model passes a \<open>world\<close> through every operation: the file system, the local time
  that \<open>datetime.now()\<close> returns, and the sequence of library calls and printed lines so
  far, in the order the code makes them.
\<close>

type_synonym byte = "8 word"

record file_entry =
  st_mode :: nat
  r_ok :: bool
  w_ok :: bool
  file_data :: "byte list"

record datetime =
  year :: nat
  month :: nat
  day :: nat
  hour :: nat
  minute :: nat
  second :: nat
  microsecond :: nat

datatype event =
    Print string
  | OsPathExists string
  | OsAccess string
  | OsStat string
  | OsMakedirs string
  | Imread string
  | CvtColor nat
  | Dilate "byte list list" nat
  | Erode "byte list list" nat
  | Threshold nat nat nat
  | ImageToString
  | DatetimeNow
  | PdfOutput string

record world =
  fs :: "string list \<rightharpoonup> file_entry"
  now :: datetime
  events :: "event list"

text \<open>A Python exception: the name of its class and \<open>str(e)\<close>.\<close>

datatype exc = Exc (exc_class: string) (exc_str: string)

text \<open>\<open>repr\<close> of a file name in the message of an \<open>OSError\<close>: in single quotes.\<close>

definition quoted :: "string \<Rightarrow> string" where
  "quoted p = [CHR 0x27] @ p @ [CHR 0x27]"

definition emit :: "event \<Rightarrow> world \<Rightarrow> world" where
  "emit e w = w\<lparr>events := events w @ [e]\<rparr>"

subsection \<open>Paths and \<open>stat\<close>\<close>

text \<open>
  From \<open>Lib/stat.py\<close>:
  \<^verbatim>\<open>
  def S_IFMT(mode): return mode & 0o170000
  S_IFDIR = 0o040000;  S_IFREG = 0o100000
  def S_ISREG(mode): return S_IFMT(mode) == S_IFREG
  \<close>
\<close>

definition S_IFMT :: "nat \<Rightarrow> nat" where
  "S_IFMT mode = mode AND 61440"

definition S_IFDIR :: nat where "S_IFDIR = 16384"
definition S_IFREG :: nat where "S_IFREG = 32768"

definition S_ISDIR :: "nat \<Rightarrow> bool" where
  "S_ISDIR mode = (S_IFMT mode = S_IFDIR)"

definition S_ISREG :: "nat \<Rightarrow> bool" where
  "S_ISREG mode = (S_IFMT mode = S_IFREG)"

text \<open>
  The file system is a tree, given as a map from the components of a POSIX path to the
  entry there: the path is split at \<open>/\<close>, empty components and \<open>.\<close> are dropped, and an
  absolute path starts with the component \<open>/\<close>. The key \<open>[]\<close> is the working directory.
  Components \<open>..\<close> and symbolic links are not resolved. The empty path names no file, as
  for \<open>stat("")\<close>.

  A path that ends in the separator or whose last component is \<open>.\<close> names a directory:
  \<open>stat("f/")\<close> and \<open>stat("f/.")\<close> fail with \<open>ENOTDIR\<close> when \<open>f\<close> is a regular file.
  A path below something that is not a directory fails with \<open>ENOTDIR\<close>, a path below
  something missing with \<open>ENOENT\<close>; \<open>nearest\<close> finds the closest ancestor that exists.
\<close>

fun split_sep :: "string \<Rightarrow> string list" where
  "split_sep [] = [[]]"
| "split_sep (c # cs) =
     (if c = CHR ''/'' then [] # split_sep cs
      else (case split_sep cs of [] \<Rightarrow> [[c]] | x # xs \<Rightarrow> (c # x) # xs))"

definition path_key :: "string \<Rightarrow> string list" where
  "path_key p =
     (if p \<noteq> [] \<and> hd p = CHR ''/'' then [''/''] else [])
       @ filter (\<lambda>c. c \<noteq> [] \<and> c \<noteq> ''.'') (split_sep p)"

definition components :: "string \<Rightarrow> string list" where
  "components p = filter (\<lambda>c. c \<noteq> []) (split_sep p)"

definition trailing_sep :: "string \<Rightarrow> bool" where
  "trailing_sep p = (p \<noteq> [] \<and> last p = CHR ''/'')"

definition ends_dot :: "string \<Rightarrow> bool" where
  "ends_dot p = (components p \<noteq> [] \<and> last (components p) = ''.'')"

definition dir_form :: "string \<Rightarrow> bool" where
  "dir_form p = (trailing_sep p \<or> ends_dot p)"

function nearest :: "(string list \<rightharpoonup> file_entry) \<Rightarrow> string list \<Rightarrow> file_entry option" where
  "nearest files key =
     (if key = [] then None
      else (case files (butlast key) of
              Some d \<Rightarrow> Some d
            | None \<Rightarrow> nearest files (butlast key)))"
  by pat_completeness auto
termination
  apply (relation "measure (\<lambda>(files, key). length key)")
   apply simp
  subgoal for files key by (cases key) simp_all
  done

declare nearest.simps [simp del]

definition ENOENT :: "string \<Rightarrow> exc" where
  "ENOENT p = Exc ''FileNotFoundError'' (''[Errno 2] No such file or directory: '' @ quoted p)"

definition ENOTDIR :: "string \<Rightarrow> exc" where
  "ENOTDIR p = Exc ''NotADirectoryError'' (''[Errno 20] Not a directory: '' @ quoted p)"

definition missing_error :: "(string list \<rightharpoonup> file_entry) \<Rightarrow> string list \<Rightarrow> string \<Rightarrow> exc" where
  "missing_error files key p =
     (case nearest files key of
        Some d \<Rightarrow> if S_ISDIR (st_mode d) then ENOENT p else ENOTDIR p
      | None \<Rightarrow> ENOENT p)"

definition stat_files :: "(string list \<rightharpoonup> file_entry) \<Rightarrow> string \<Rightarrow> exc + file_entry" where
  "stat_files files p =
     (if p = [] then Inl (ENOENT p)
      else (case files (path_key p) of
              None \<Rightarrow> Inl (missing_error files (path_key p) p)
            | Some f \<Rightarrow>
                if dir_form p \<and> \<not> S_ISDIR (st_mode f) then Inl (ENOTDIR p) else Inr f))"

definition stat_path :: "world \<Rightarrow> string \<Rightarrow> file_entry option" where
  "stat_path w p = (case stat_files (fs w) p of Inl e \<Rightarrow> None | Inr f \<Rightarrow> Some f)"

subsection \<open>\<open>os.path.exists\<close>, \<open>os.access\<close>, \<open>os.stat\<close>, \<open>oct\<close>\<close>

text \<open>
  \<open>os.path.exists\<close> is \<open>os.stat\<close> with every \<open>OSError\<close> answered by \<open>False\<close>
  (\<open>Lib/genericpath.py\<close>); \<open>os.access(path, os.R_OK)\<close> resolves the path in the same way.
\<close>

definition os_path_exists :: "world \<Rightarrow> string \<Rightarrow> bool \<times> world" where
  "os_path_exists w p = (stat_path w p \<noteq> None, emit (OsPathExists p) w)"

definition os_access_R_OK :: "world \<Rightarrow> string \<Rightarrow> bool \<times> world" where
  "os_access_R_OK w p =
     ((case stat_path w p of None \<Rightarrow> False | Some f \<Rightarrow> r_ok f), emit (OsAccess p) w)"

definition os_stat :: "world \<Rightarrow> string \<Rightarrow> (exc + file_entry) \<times> world" where
  "os_stat w p = (stat_files (fs w) p, emit (OsStat p) w)"

definition py_print :: "world \<Rightarrow> string \<Rightarrow> world" where
  "py_print w s = emit (Print s) w"

definition digit_char :: "nat \<Rightarrow> char" where
  "digit_char d = ''0123456789'' ! d"

fun oct_digits :: "nat \<Rightarrow> string" where
  "oct_digits n = (if n < 8 then [digit_char n] else oct_digits (n div 8) @ [digit_char (n mod 8)])"

declare oct_digits.simps [simp del]

definition oct :: "nat \<Rightarrow> string" where
  "oct n = ''0o'' @ oct_digits n"

section \<open>\<open>check_file_access\<close>\<close>

text \<open>
  \<^verbatim>\<open>
  def check_file_access(filename):
      if not os.path.exists(filename):
          print("File does not exist.")
          return False
      if not os.access(filename, os.R_OK):
          print("File is not readable. Permission denied.")
          return False
      file_stat = os.stat(filename)
      print(f"File permissions: {oct(file_stat.st_mode)}")
      if not stat.S_ISREG(file_stat.st_mode):
          print("File is not a regular file.")
          return False
      print("File is accessible and ready for processing.")
      return True
  \<close>
  \<open>os.stat\<close> raises when the path names no file; the function does not catch it.
\<close>

definition check_file_access :: "world \<Rightarrow> string \<Rightarrow> (exc + bool) \<times> world" where
  "check_file_access w filename =
     (case os_path_exists w filename of (ex, w1) \<Rightarrow>
        if \<not> ex then (Inr False, py_print w1 ''File does not exist.'')
        else (case os_access_R_OK w1 filename of (readable, w2) \<Rightarrow>
          if \<not> readable then (Inr False, py_print w2 ''File is not readable. Permission denied.'')
          else (case os_stat w2 filename of
              (Inl e, w3) \<Rightarrow> (Inl e, w3)
            | (Inr file_stat, w3) \<Rightarrow>
                (let w4 = py_print w3 (''File permissions: '' @ oct (st_mode file_stat))
                 in if \<not> S_ISREG (st_mode file_stat)
                    then (Inr False, py_print w4 ''File is not a regular file.'')
                    else (Inr True, py_print w4 ''File is accessible and ready for processing.'')))))"

lemma stat_path_emit [simp]: "stat_path (emit e w) p = stat_path w p"
  by (simp add: stat_path_def emit_def)

lemma stat_path_Some:
  "stat_path w p = Some f \<longleftrightarrow>
     p \<noteq> [] \<and> fs w (path_key p) = Some f \<and> (dir_form p \<longrightarrow> S_ISDIR (st_mode f))"
  by (auto simp: stat_path_def stat_files_def split: option.splits sum.splits)

lemma stat_path_None:
  "stat_path w p = None \<longleftrightarrow>
     p = [] \<or> fs w (path_key p) = None
       \<or> (\<exists>f. fs w (path_key p) = Some f \<and> dir_form p \<and> \<not> S_ISDIR (st_mode f))"
  by (auto simp: stat_path_def stat_files_def split: option.splits sum.splits)

lemma stat_files_Inr: "stat_path w p = Some f \<Longrightarrow> stat_files (fs w) p = Inr f"
  by (auto simp: stat_path_def split: sum.splits)

lemma stat_files_Inl: "stat_path w p = None \<Longrightarrow> \<exists>e. stat_files (fs w) p = Inl e"
  by (auto simp: stat_path_def split: sum.splits)

lemma events_emit [simp]: "events (emit e w) = events w @ [e]"
  by (simp add: emit_def)

lemma fs_emit [simp]: "fs (emit e w) = fs w"
  by (simp add: emit_def)

lemma now_emit [simp]: "now (emit e w) = now w"
  by (simp add: emit_def)

section \<open>The libraries\<close>

text \<open>
  OpenCV, Tesseract and FPDF are not part of the repository. What the code relies on is
  passed in as a record of functions: the image decoder behind \<open>cv2.imread\<close> (\<open>None\<close>
  when the bytes are not an image), colour conversion, dilation and erosion, Otsu's
  threshold selection, the recognition engine (which may raise), and FPDF's rendering of
  a text to the bytes of a PDF file (which may raise).
\<close>

type_synonym gray_image = "byte list list"
type_synonym bgr_image = "(byte \<times> byte \<times> byte) list list"

record libs =
  imdecode :: "byte list \<Rightarrow> bgr_image option"
  cvtColor :: "bgr_image \<Rightarrow> nat \<Rightarrow> gray_image"
  dilate :: "gray_image \<Rightarrow> byte list list \<Rightarrow> nat \<Rightarrow> gray_image"
  erode :: "gray_image \<Rightarrow> byte list list \<Rightarrow> nat \<Rightarrow> gray_image"
  otsu :: "gray_image \<Rightarrow> nat"
  image_to_string :: "gray_image \<Rightarrow> exc + string"
  fpdf_render :: "string \<Rightarrow> exc + byte list"

definition COLOR_BGR2GRAY :: nat where "COLOR_BGR2GRAY = 6"
definition THRESH_BINARY :: nat where "THRESH_BINARY = 0"
definition THRESH_OTSU :: nat where "THRESH_OTSU = 8"

text \<open>\<open>np.ones((rows, cols), np.uint8)\<close>\<close>

definition np_ones :: "nat \<Rightarrow> nat \<Rightarrow> byte list list" where
  "np_ones rows cols = replicate rows (replicate cols 1)"

text \<open>
  \<open>cv2.imread(filename)\<close> returns \<open>None\<close> when the file cannot be read or decoded; it
  does not raise.
\<close>

definition cv2_imread :: "libs \<Rightarrow> world \<Rightarrow> string \<Rightarrow> bgr_image option \<times> world" where
  "cv2_imread L w filename =
     ((case stat_path w filename of
         None \<Rightarrow> None
       | Some f \<Rightarrow> if r_ok f \<and> S_ISREG (st_mode f) then imdecode L (file_data f) else None),
      emit (Imread filename) w)"

text \<open>
  \<open>cv2.threshold(src, thresh, maxval, type)\<close> on an 8-bit single-channel image, after
  the OpenCV documentation. The low three bits of \<open>type\<close> select the operation
  (\<open>THRESH_BINARY = 0\<close>: \<open>maxval\<close> where \<open>src > thresh\<close>, else \<open>0\<close>;
  \<open>THRESH_BINARY_INV = 1\<close>; \<open>THRESH_TRUNC = 2\<close>; \<open>THRESH_TOZERO = 3\<close>;
  \<open>THRESH_TOZERO_INV = 4\<close>). With the flag \<open>THRESH_OTSU = 8\<close> the threshold is the one
  Otsu's method selects and the argument \<open>thresh\<close> is not used. The function returns the
  threshold used and the image.
\<close>

definition thresh_pixel :: "nat \<Rightarrow> nat \<Rightarrow> nat \<Rightarrow> byte \<Rightarrow> byte" where
  "thresh_pixel op t maxval p =
     (if op = 0 then (if unat p > t then of_nat (min maxval 255) else 0)
      else if op = 1 then (if unat p > t then 0 else of_nat (min maxval 255))
      else if op = 2 then (if unat p > t then of_nat t else p)
      else if op = 3 then (if unat p > t then p else 0)
      else (if unat p > t then 0 else p))"

definition cv2_threshold :: "libs \<Rightarrow> gray_image \<Rightarrow> nat \<Rightarrow> nat \<Rightarrow> nat \<Rightarrow> nat \<times> gray_image" where
  "cv2_threshold L src thresh maxval typ =
     (let t = (if typ AND THRESH_OTSU \<noteq> 0 then otsu L src else thresh)
      in (t, map (map (thresh_pixel (typ AND 7) t maxval)) src))"

section \<open>\<open>OCRProcessor.process_image\<close>\<close>

text \<open>
  The body of the \<open>try\<close>:
  \<^verbatim>\<open>
  if not check_file_access(filename):
      raise RuntimeError("File is not accessible.")
  img = cv2.imread(filename)
  if img is None:
      raise RuntimeError("Failed to read image. The file may be inaccessible or corrupted.")
  gray = cv2.cvtColor(img, cv2.COLOR_BGR2GRAY)
  kernel = np.ones((1, 1), np.uint8)
  img_dilated = cv2.dilate(gray, kernel, iterations=1)
  img_eroded = cv2.erode(img_dilated, kernel, iterations=1)
  _, img_thresh = cv2.threshold(img_eroded, 128, 255, cv2.THRESH_BINARY + cv2.THRESH_OTSU)
  text = pytesseract.image_to_string(img_thresh)
  return text
  \<close>
  Lines 60 to 69, from the decoded image to the thresholded one, are \<open>preprocess\<close>.
\<close>

definition preprocess :: "libs \<Rightarrow> world \<Rightarrow> bgr_image \<Rightarrow> gray_image \<times> world" where
  "preprocess L w img =
     (let gray = cvtColor L img COLOR_BGR2GRAY;
          w1 = emit (CvtColor COLOR_BGR2GRAY) w;
          kernel = np_ones 1 1;
          img_dilated = dilate L gray kernel 1;
          w2 = emit (Dilate kernel 1) w1;
          img_eroded = erode L img_dilated kernel 1;
          w3 = emit (Erode kernel 1) w2;
          (retval, img_thresh) = cv2_threshold L img_eroded 128 255 (THRESH_BINARY + THRESH_OTSU);
          w4 = emit (Threshold 128 255 (THRESH_BINARY + THRESH_OTSU)) w3
      in (img_thresh, w4))"

definition process_image_body :: "libs \<Rightarrow> world \<Rightarrow> string \<Rightarrow> (exc + string) \<times> world" where
  "process_image_body L w filename =
     (case check_file_access w filename of
        (Inl e, w1) \<Rightarrow> (Inl e, w1)
      | (Inr accessible, w1) \<Rightarrow>
          if \<not> accessible then (Inl (Exc ''RuntimeError'' ''File is not accessible.''), w1)
          else (case cv2_imread L w1 filename of
              (None, w2) \<Rightarrow>
                (Inl (Exc ''RuntimeError''
                   ''Failed to read image. The file may be inaccessible or corrupted.''), w2)
            | (Some img, w2) \<Rightarrow>
                (case preprocess L w2 img of (img_thresh, w3) \<Rightarrow>
                   (image_to_string L img_thresh, emit ImageToString w3))))"

text \<open>
  \<^verbatim>\<open>
  except Exception as e:
      raise RuntimeError(f"Failed to process image: {e}")
  \<close>
\<close>

definition process_image :: "libs \<Rightarrow> world \<Rightarrow> string \<Rightarrow> (exc + string) \<times> world" where
  "process_image L w filename =
     (case process_image_body L w filename of
        (Inl e, w') \<Rightarrow> (Inl (Exc ''RuntimeError'' (''Failed to process image: '' @ exc_str e)), w')
      | (Inr text, w') \<Rightarrow> (Inr text, w'))"

section \<open>Writing the PDF: \<open>OCRProcessor.save_to_pdf\<close>\<close>

subsection \<open>\<open>os.makedirs\<close> and writing a file\<close>

text \<open>
  \<open>mkdir(p)\<close> creates one directory: the name must be free, and the parent must be a
  directory the process may write to. The new directory has the type bits of a directory
  and the default mode \<open>0o777\<close> of \<open>os.makedirs\<close> (the umask is not modelled). A path
  whose last component is \<open>.\<close> names the directory before it, so \<open>mkdir\<close> fails with
  \<open>EEXIST\<close> when that is a directory, and as \<open>stat\<close> does otherwise; a trailing separator
  is allowed.
\<close>

definition new_dir :: file_entry where
  "new_dir = \<lparr>st_mode = S_IFDIR + 511, r_ok = True, w_ok = True, file_data = []\<rparr>"

definition new_file :: "byte list \<Rightarrow> file_entry" where
  "new_file bytes = \<lparr>st_mode = S_IFREG + 420, r_ok = True, w_ok = True, file_data = bytes\<rparr>"

definition EEXIST :: "string \<Rightarrow> exc" where
  "EEXIST p = Exc ''FileExistsError'' (''[Errno 17] File exists: '' @ quoted p)"

definition EACCES :: "string \<Rightarrow> exc" where
  "EACCES p = Exc ''PermissionError'' (''[Errno 13] Permission denied: '' @ quoted p)"

definition EISDIR :: "string \<Rightarrow> exc" where
  "EISDIR p = Exc ''IsADirectoryError'' (''[Errno 21] Is a directory: '' @ quoted p)"

definition parent_error :: "(string list \<rightharpoonup> file_entry) \<Rightarrow> string list \<Rightarrow> string \<Rightarrow> exc option" where
  "parent_error files key p =
     (case files (butlast key) of
        None \<Rightarrow> Some (missing_error files key p)
      | Some d \<Rightarrow>
          if \<not> S_ISDIR (st_mode d) then Some (ENOTDIR p)
          else if \<not> w_ok d then Some (EACCES p)
          else None)"

definition mkdir_path ::
  "(string list \<rightharpoonup> file_entry) \<Rightarrow> string \<Rightarrow> exc + (string list \<rightharpoonup> file_entry)" where
  "mkdir_path files p =
     (let key = path_key p in
      if p = [] then Inl (ENOENT p)
      else if ends_dot p then
        (case files key of
           None \<Rightarrow> Inl (missing_error files key p)
         | Some d \<Rightarrow> if S_ISDIR (st_mode d) then Inl (EEXIST p) else Inl (ENOTDIR p))
      else if files key \<noteq> None then Inl (EEXIST p)
      else (case parent_error files key p of
              Some e \<Rightarrow> Inl e
            | None \<Rightarrow> Inr (files(key \<mapsto> new_dir))))"

text \<open>
  \<open>posixpath.split\<close>:
  \<^verbatim>\<open>
  i = p.rfind(sep) + 1
  head, tail = p[:i], p[i:]
  if head and head != sep*len(head):
      head = head.rstrip(sep)
  return head, tail
  \<close>
\<close>

definition rstrip_sep :: "string \<Rightarrow> string" where
  "rstrip_sep s = rev (dropWhile (\<lambda>c. c = CHR ''/'') (rev s))"

definition path_split :: "string \<Rightarrow> string \<times> string" where
  "path_split p =
     (let head = rev (dropWhile (\<lambda>c. c \<noteq> CHR ''/'') (rev p));
          tail = rev (takeWhile (\<lambda>c. c \<noteq> CHR ''/'') (rev p))
      in (if head \<noteq> [] \<and> \<not> list_all (\<lambda>c. c = CHR ''/'') head then rstrip_sep head else head, tail))"

text \<open>
  \<open>os.makedirs(name)\<close> with the default \<open>exist_ok=False\<close> (\<open>Lib/os.py\<close>):
  \<^verbatim>\<open>
  head, tail = path.split(name)
  if not tail:
      head, tail = path.split(head)
  if head and tail and not path.exists(head):
      try:
          makedirs(head, exist_ok=exist_ok)
      except FileExistsError:
          pass
      cdir = curdir
      if tail == cdir:
          return
  try:
      mkdir(name, mode)
  except OSError:
      if not exist_ok or not path.isdir(name):
          raise
  \<close>
  A failure leaves the directories made so far, and its message names the path of the
  \<open>mkdir\<close> that failed.
\<close>

definition makedirs_parts :: "string \<Rightarrow> string \<times> string" where
  "makedirs_parts name =
     (case path_split name of (head, tail) \<Rightarrow>
        if tail = [] then path_split head else (head, tail))"

definition mkdir_step ::
  "(string list \<rightharpoonup> file_entry) \<Rightarrow> string \<Rightarrow> exc option \<times> (string list \<rightharpoonup> file_entry)" where
  "mkdir_step files name =
     (case mkdir_path files name of Inl e \<Rightarrow> (Some e, files) | Inr files2 \<Rightarrow> (None, files2))"

lemma path_split_length: "length (fst (path_split p)) + length (snd (path_split p)) \<le> length p"
proof -
  define h where "h = rev (dropWhile (\<lambda>c. c \<noteq> CHR ''/'') (rev p))"
  define t where "t = rev (takeWhile (\<lambda>c. c \<noteq> CHR ''/'') (rev p))"
  have "length (dropWhile (\<lambda>c. c \<noteq> CHR ''/'') (rev p)) + length (takeWhile (\<lambda>c. c \<noteq> CHR ''/'') (rev p))
      = length p"
    by (metis add.commute length_append length_rev takeWhile_dropWhile_id)
  then have 1: "length h + length t = length p" by (simp add: h_def t_def)
  have 2: "length (rstrip_sep h) \<le> length h"
    using length_dropWhile_le[of "\<lambda>c. c = CHR ''/''" "rev h"] by (simp add: rstrip_sep_def)
  have "path_split p = (if h \<noteq> [] \<and> \<not> list_all (\<lambda>c. c = CHR ''/'') h then rstrip_sep h else h, t)"
    by (simp add: path_split_def Let_def h_def t_def)
  then show ?thesis using 1 2 by simp
qed

lemma makedirs_parts_shorter:
  assumes "snd (makedirs_parts name) \<noteq> []"
  shows "length (fst (makedirs_parts name)) < length name"
proof -
  have pos: "0 < length (snd (makedirs_parts name))" using assms by simp
  show ?thesis
  proof (cases "snd (path_split name) = []")
    case True
    then have "makedirs_parts name = path_split (fst (path_split name))"
      by (cases "path_split name") (simp add: makedirs_parts_def)
    moreover have "length (fst (path_split name)) \<le> length name"
      using path_split_length[of name] by simp
    ultimately show ?thesis
      using pos path_split_length[of "fst (path_split name)"]
      by (simp del: length_greater_0_conv)
  next
    case False
    then have "makedirs_parts name = path_split name"
      by (cases "path_split name") (simp add: makedirs_parts_def)
    then show ?thesis using pos path_split_length[of name]
      by (simp del: length_greater_0_conv)
  qed
qed

definition makedirs_rest ::
  "string \<Rightarrow> (string list \<rightharpoonup> file_entry) \<Rightarrow> string \<Rightarrow> exc option \<times> (string list \<rightharpoonup> file_entry)" where
  "makedirs_rest tail files name = (if tail = ''.'' then (None, files) else mkdir_step files name)"

function makedirs_files ::
  "(string list \<rightharpoonup> file_entry) \<Rightarrow> string \<Rightarrow> exc option \<times> (string list \<rightharpoonup> file_entry)" where
  "makedirs_files files name =
     (if fst (makedirs_parts name) \<noteq> [] \<and> snd (makedirs_parts name) \<noteq> []
         \<and> isl (stat_files files (fst (makedirs_parts name)))
      then
        (case makedirs_files files (fst (makedirs_parts name)) of
           (Some e, files1) \<Rightarrow>
             if exc_class e = ''FileExistsError''
             then makedirs_rest (snd (makedirs_parts name)) files1 name
             else (Some e, files1)
         | (None, files1) \<Rightarrow> makedirs_rest (snd (makedirs_parts name)) files1 name)
      else mkdir_step files name)"
  by pat_completeness auto
termination
  apply (relation "measure (\<lambda>(files, name). length name)")
   apply simp
  subgoal for files name using makedirs_parts_shorter[of name] by simp
  done

declare makedirs_files.simps [simp del]

definition os_makedirs :: "world \<Rightarrow> string \<Rightarrow> exc option \<times> world" where
  "os_makedirs w name =
     (case makedirs_files (fs w) name of
        (r, files) \<Rightarrow> (r, emit (OsMakedirs name) (w\<lparr>fs := files\<rparr>)))"

text \<open>
  Opening a file for writing (\<open>open(name, 'wb')\<close>), writing the bytes and closing it.
  The parent must be a directory; an existing regular file is replaced if it is
  writable, and a new file needs a writable parent. A name in the form of a directory
  (a trailing separator, or \<open>.\<close> as the last component) cannot be opened for writing.
\<close>

definition write_file :: "world \<Rightarrow> string \<Rightarrow> byte list \<Rightarrow> exc option \<times> world" where
  "write_file w name bytes =
     (let key = path_key name in
      if name = [] then (Some (ENOENT name), w)
      else if ends_dot name then
        (case fs w key of
           None \<Rightarrow> (Some (missing_error (fs w) key name), w)
         | Some d \<Rightarrow> if S_ISDIR (st_mode d) then (Some (EISDIR name), w) else (Some (ENOTDIR name), w))
      else (case fs w (butlast key) of
          None \<Rightarrow> (Some (missing_error (fs w) key name), w)
        | Some d \<Rightarrow>
            if \<not> S_ISDIR (st_mode d) then (Some (ENOTDIR name), w)
            else (case fs w key of
                Some f \<Rightarrow>
                  if trailing_sep name \<or> S_ISDIR (st_mode f) then (Some (EISDIR name), w)
                  else if \<not> w_ok f then (Some (EACCES name), w)
                  else (None, w\<lparr>fs := (fs w)(key \<mapsto> f\<lparr>file_data := bytes\<rparr>)\<rparr>)
              | None \<Rightarrow>
                  if trailing_sep name then (Some (EISDIR name), w)
                  else if \<not> w_ok d then (Some (EACCES name), w)
                  else (None, w\<lparr>fs := (fs w)(key \<mapsto> new_file bytes)\<rparr>))))"

subsection \<open>\<open>os.path.join\<close>, \<open>datetime.now()\<close>, \<open>strftime\<close>\<close>

text \<open>
  \<open>posixpath.join(a, b)\<close>:
  \<^verbatim>\<open>
  if b.startswith(sep): path = b
  elif not path or path.endswith(sep): path += b
  else: path += sep + b
  \<close>
\<close>

definition os_path_join :: "string \<Rightarrow> string \<Rightarrow> string" where
  "os_path_join a b =
     (if b \<noteq> [] \<and> hd b = CHR ''/'' then b
      else if a = [] \<or> last a = CHR ''/'' then a @ b
      else a @ ''/'' @ b)"

fun dec_digits :: "nat \<Rightarrow> string" where
  "dec_digits n = (if n < 10 then [digit_char n] else dec_digits (n div 10) @ [digit_char (n mod 10)])"

declare dec_digits.simps [simp del]

definition zero_pad :: "nat \<Rightarrow> nat \<Rightarrow> string" where
  "zero_pad width n = replicate (width - length (dec_digits n)) CHR ''0'' @ dec_digits n"

text \<open>\<open>dt.strftime("%Y%m%d_%H%M%S")\<close>: every field is a zero-padded decimal number.\<close>

definition strftime_stamp :: "datetime \<Rightarrow> string" where
  "strftime_stamp dt =
     zero_pad 4 (year dt) @ zero_pad 2 (month dt) @ zero_pad 2 (day dt) @ ''_''
       @ zero_pad 2 (hour dt) @ zero_pad 2 (minute dt) @ zero_pad 2 (second dt)"

definition datetime_now :: "world \<Rightarrow> datetime \<times> world" where
  "datetime_now w = (now w, emit DatetimeNow w)"











subsection \<open>\<open>save_to_pdf\<close>\<close>

text \<open>
  \<^verbatim>\<open>
  def save_to_pdf(self, text, output_dir="output"):
      try:
          if not os.path.exists(output_dir):
              os.makedirs(output_dir)
          timestamp = datetime.now().strftime("%Y%m%d_%H%M%S")
          pdf_filename = os.path.join(output_dir, f"converted_{timestamp}.pdf")
          pdf = fpdf.FPDF(format='letter')
          pdf.add_page()
          pdf.set_font("Arial", size=12)
          pdf.write(5, text)
          pdf.output(pdf_filename)
          return pdf_filename
      except Exception as e:
          raise RuntimeError(f"Failed to save PDF: {e}")
  \<close>
  The five FPDF calls are \<open>fpdf_render\<close> (the bytes of the document, or the exception
  FPDF raises for the text) followed by the write of the file.
\<close>

definition save_to_pdf_body :: "libs \<Rightarrow> world \<Rightarrow> string \<Rightarrow> string \<Rightarrow> (exc + string) \<times> world" where
  "save_to_pdf_body L w text output_dir =
     (case os_path_exists w output_dir of (ex, w1) \<Rightarrow>
      (case (if \<not> ex then os_makedirs w1 output_dir else (None, w1)) of
         (Some e, w2) \<Rightarrow> (Inl e, w2)
       | (None, w2) \<Rightarrow>
          (case datetime_now w2 of (dt, w3) \<Rightarrow>
            (let timestamp = strftime_stamp dt;
                 pdf_filename = os_path_join output_dir (''converted_'' @ timestamp @ ''.pdf'')
             in (case fpdf_render L text of
                   Inl e \<Rightarrow> (Inl e, w3)
                 | Inr bytes \<Rightarrow>
                     (case write_file (emit (PdfOutput pdf_filename) w3) pdf_filename bytes of
                        (Some e, w4) \<Rightarrow> (Inl e, w4)
                      | (None, w4) \<Rightarrow> (Inr pdf_filename, w4)))))))"

definition save_to_pdf :: "libs \<Rightarrow> world \<Rightarrow> string \<Rightarrow> string \<Rightarrow> (exc + string) \<times> world" where
  "save_to_pdf L w text output_dir =
     (case save_to_pdf_body L w text output_dir of
        (Inl e, w') \<Rightarrow> (Inl (Exc ''RuntimeError'' (''Failed to save PDF: '' @ exc_str e)), w')
      | (Inr pdf_filename, w') \<Rightarrow> (Inr pdf_filename, w'))"

text \<open>The default argument \<open>output_dir="output"\<close>.\<close>

definition save_to_pdf_default :: "libs \<Rightarrow> world \<Rightarrow> string \<Rightarrow> (exc + string) \<times> world" where
  "save_to_pdf_default L w text = save_to_pdf L w text ''output''"

section \<open>A concrete environment\<close>

text \<open>
  A small library instance and file system on which the theorems below are run. The
  decoder reads a headerless one-row image of three bytes per pixel; grey conversion is
  OpenCV's fixed-point luminance; dilation and erosion are the identity (exact for the
  1x1 kernel, the only one the code passes); \<open>otsu_exact\<close> maximises the between-class
  variance in exact arithmetic and keeps the first maximum.
\<close>

fun triples :: "byte list \<Rightarrow> (byte \<times> byte \<times> byte) list" where
  "triples (b # g # r # rest) = (b, g, r) # triples rest"
| "triples _ = []"

definition raw_decode :: "byte list \<Rightarrow> bgr_image option" where
  "raw_decode bytes =
     (if bytes = [] \<or> length bytes mod 3 \<noteq> 0 then None else Some [triples bytes])"

definition bgr2gray :: "byte \<times> byte \<times> byte \<Rightarrow> byte" where
  "bgr2gray = (\<lambda>(b, g, r).
     of_nat ((unat b * 1868 + unat g * 9617 + unat r * 4899 + 8192) div 16384))"

definition between_class :: "nat list \<Rightarrow> nat \<Rightarrow> nat \<times> nat" where
  "between_class pixels t =
     (let lo = filter (\<lambda>p. p \<le> t) pixels; hi = filter (\<lambda>p. p > t) pixels;
          n0 = length lo; n1 = length hi;
          d = (if sum_list lo * n1 \<ge> sum_list hi * n0
               then sum_list lo * n1 - sum_list hi * n0
               else sum_list hi * n0 - sum_list lo * n1)
      in (d * d, n0 * n1))"

definition otsu_exact :: "gray_image \<Rightarrow> nat" where
  "otsu_exact img =
     (let pixels = map unat (concat img)
      in fst (fold (\<lambda>t (best, num, den).
                case between_class pixels t of (n, d) \<Rightarrow>
                  if d \<noteq> 0 \<and> n * den > num * d then (t, n, d) else (best, num, den))
              [0..<256] (0, 0, 1)))"

definition demo_libs :: libs where
  "demo_libs =
     \<lparr>imdecode = raw_decode,
      cvtColor = (\<lambda>img code. map (map bgr2gray) img),
      dilate = (\<lambda>img kernel iterations. img),
      erode = (\<lambda>img kernel iterations. img),
      otsu = otsu_exact,
      image_to_string = (\<lambda>img. Inr ''HELLO WORLD''),
      fpdf_render = (\<lambda>text. Inr (map (\<lambda>c. of_nat (of_char c)) text))\<rparr>"

definition no_engine_libs :: libs where
  "no_engine_libs =
     demo_libs\<lparr>image_to_string :=
       (\<lambda>img. Inl (Exc ''TesseractNotFoundError'' ''tesseract is not installed or it is not in your PATH''))\<rparr>"

definition demo_now :: datetime where
  "demo_now = \<lparr>year = 2026, month = 11, day = 4, hour = 9, minute = 5, second = 0, microsecond = 12\<rparr>"

definition demo_files :: "string list \<rightharpoonup> file_entry" where
  "demo_files =
     [[] \<mapsto> new_dir,
      [''scan.raw''] \<mapsto> new_file [10, 200, 30, 250, 250, 250],
      [''pixel.raw''] \<mapsto> new_file [0, 0, 0],
      [''empty.png''] \<mapsto> new_file [],
      [''secret.png''] \<mapsto> (new_file [1, 2, 3])\<lparr>r_ok := False\<rparr>,
      [''locked''] \<mapsto> new_dir\<lparr>w_ok := False\<rparr>]"

definition demo_world :: world where
  "demo_world = \<lparr>fs = demo_files, now = demo_now, events = []\<rparr>"

section \<open>Access validation and the image pipeline: theorems\<close>

lemma world_events_id [simp]: "w\<lparr>events := events w\<rparr> = w"
  by simp

lemma stat_path_events [simp]: "stat_path (w\<lparr>events := es\<rparr>) q = stat_path w q"
  by (simp add: stat_path_def)

lemma check_file_access_eq:
  "check_file_access w filename =
     (case stat_path w filename of
        None \<Rightarrow>
          (Inr False, w\<lparr>events := events w @
             [OsPathExists filename, Print ''File does not exist.'']\<rparr>)
      | Some f \<Rightarrow>
          if \<not> r_ok f then
            (Inr False, w\<lparr>events := events w @
               [OsPathExists filename, OsAccess filename,
                Print ''File is not readable. Permission denied.'']\<rparr>)
          else if \<not> S_ISREG (st_mode f) then
            (Inr False, w\<lparr>events := events w @
               [OsPathExists filename, OsAccess filename, OsStat filename,
                Print (''File permissions: '' @ oct (st_mode f)),
                Print ''File is not a regular file.'']\<rparr>)
          else
            (Inr True, w\<lparr>events := events w @
               [OsPathExists filename, OsAccess filename, OsStat filename,
                Print (''File permissions: '' @ oct (st_mode f)),
                Print ''File is accessible and ready for processing.'']\<rparr>))"
proof (cases "stat_path w filename")
  case None
  then show ?thesis
    by (simp add: check_file_access_def os_path_exists_def py_print_def emit_def)
next
  case (Some f)
  then have "stat_files (fs w) filename = Inr f" by (rule stat_files_Inr)
  then show ?thesis using Some
    by (auto simp: check_file_access_def os_path_exists_def os_access_R_OK_def
          os_stat_def py_print_def emit_def Let_def)
qed

text \<open>
  Claim C5. \<open>check_file_access\<close> asks, in this order, whether the path exists, whether it
  is readable and, after \<open>os.stat\<close>, whether it is a regular file; it stops at the first
  check that fails, printing a reason of its own for each, and returns \<open>True\<close> for a
  readable regular file. It never raises. The calls made and the lines printed are the
  events added to the world.
\<close>

theorem check_file_access_checks:
  "check_file_access w filename =
     (case stat_path w filename of
        None \<Rightarrow>
          (Inr False, w\<lparr>events := events w @
             [OsPathExists filename, Print ''File does not exist.'']\<rparr>)
      | Some f \<Rightarrow>
          if \<not> r_ok f then
            (Inr False, w\<lparr>events := events w @
               [OsPathExists filename, OsAccess filename,
                Print ''File is not readable. Permission denied.'']\<rparr>)
          else if \<not> S_ISREG (st_mode f) then
            (Inr False, w\<lparr>events := events w @
               [OsPathExists filename, OsAccess filename, OsStat filename,
                Print (''File permissions: '' @ oct (st_mode f)),
                Print ''File is not a regular file.'']\<rparr>)
          else
            (Inr True, w\<lparr>events := events w @
               [OsPathExists filename, OsAccess filename, OsStat filename,
                Print (''File permissions: '' @ oct (st_mode f)),
                Print ''File is accessible and ready for processing.'']\<rparr>))
   \<and> distinct [''File does not exist.'', ''File is not readable. Permission denied.'',
                ''File is not a regular file.'']"
  using check_file_access_eq[of w filename] by simp

lemma check_file_access_ok:
  assumes "stat_path w p = Some f" "r_ok f" "S_ISREG (st_mode f)"
  shows "check_file_access w p =
     (Inr True, w\<lparr>events := events w @
        [OsPathExists p, OsAccess p, OsStat p,
         Print (''File permissions: '' @ oct (st_mode f)),
         Print ''File is accessible and ready for processing.'']\<rparr>)"
  using assms by (simp add: check_file_access_eq)

lemma check_file_access_never_raises: "\<exists>ok. fst (check_file_access w p) = Inr ok"
  by (auto simp: check_file_access_eq split: option.split)

lemma check_file_access_True_iff:
  "fst (check_file_access w p) = Inr True \<longleftrightarrow>
     (\<exists>f. stat_path w p = Some f \<and> r_ok f \<and> S_ISREG (st_mode f))"
  by (auto simp: check_file_access_eq split: option.split)

lemma stat_path_check [simp]: "stat_path (snd (check_file_access w p)) q = stat_path w q"
  by (auto simp: check_file_access_eq split: option.split)

lemma preprocess_eq:
  "preprocess L w img =
     (snd (cv2_threshold L
        (erode L (dilate L (cvtColor L img COLOR_BGR2GRAY) (np_ones 1 1) 1) (np_ones 1 1) 1)
        128 255 (THRESH_BINARY + THRESH_OTSU)),
      w\<lparr>events := events w @
        [CvtColor COLOR_BGR2GRAY, Dilate (np_ones 1 1) 1, Erode (np_ones 1 1) 1,
         Threshold 128 255 (THRESH_BINARY + THRESH_OTSU)]\<rparr>)"
  by (simp add: preprocess_def Let_def emit_def split: prod.split)

lemma otsu_flag: "(THRESH_BINARY + THRESH_OTSU) AND THRESH_OTSU \<noteq> 0"
  by (simp add: THRESH_BINARY_def THRESH_OTSU_def)

lemma binary_op: "(THRESH_BINARY + THRESH_OTSU) AND 7 = 0"
  by (simp add: THRESH_BINARY_def THRESH_OTSU_def)

lemma threshold_binary_otsu:
  "cv2_threshold L src thresh 255 (THRESH_BINARY + THRESH_OTSU) =
     (otsu L src, map (map (\<lambda>p. if unat p > otsu L src then 255 else 0)) src)"
  using otsu_flag binary_op by (simp add: cv2_threshold_def thresh_pixel_def Let_def)

lemma cv2_imread_after_check:
  "fst (cv2_imread L (snd (check_file_access w p)) p) =
     (case stat_path w p of
        None \<Rightarrow> None
      | Some f \<Rightarrow> if r_ok f \<and> S_ISREG (st_mode f) then imdecode L (file_data f) else None)"
  by (simp add: cv2_imread_def)

lemma process_image_body_eq:
  "process_image_body L w p =
     (if fst (check_file_access w p) \<noteq> Inr True then
        (Inl (Exc ''RuntimeError'' ''File is not accessible.''), snd (check_file_access w p))
      else (case fst (cv2_imread L (snd (check_file_access w p)) p) of
          None \<Rightarrow>
            (Inl (Exc ''RuntimeError''
               ''Failed to read image. The file may be inaccessible or corrupted.''),
             emit (Imread p) (snd (check_file_access w p)))
        | Some img \<Rightarrow>
            (image_to_string L (fst (preprocess L w img)),
             emit ImageToString
               (snd (preprocess L (emit (Imread p) (snd (check_file_access w p))) img)))))"
proof -
  obtain ok where ok: "fst (check_file_access w p) = Inr ok"
    using check_file_access_never_raises by blast
  obtain r w1 where c: "check_file_access w p = (r, w1)"
    by (cases "check_file_access w p")
  with ok have r: "r = Inr ok" by simp
  show ?thesis
    unfolding process_image_body_def c r
    by (cases ok; cases "fst (cv2_imread L w1 p)")
       (auto simp: cv2_imread_def preprocess_eq split: prod.splits option.splits)
qed

text \<open>
  Claim C6. A file that exists, is readable and is a regular file, but whose bytes the
  decoder rejects (a 0-byte file): access validation succeeds, then the conversion fails
  with the decode failure, before any preprocessing and without calling the recognition
  engine, so no text is produced. In the code the decode failure is the \<open>RuntimeError\<close>
  raised at the \<open>img is None\<close> test, which reaches the caller inside the message of the
  \<open>RuntimeError\<close> of the \<open>except\<close> clause.
\<close>

theorem undecodable_file_fails:
  assumes "stat_path w p = Some f" and "r_ok f" and "S_ISREG (st_mode f)"
    and "imdecode L (file_data f) = None"
  shows "fst (check_file_access w p) = Inr True
    \<and> fst (process_image_body L w p) =
        Inl (Exc ''RuntimeError''
          ''Failed to read image. The file may be inaccessible or corrupted.'')
    \<and> fst (process_image L w p) =
        Inl (Exc ''RuntimeError''
          ''Failed to process image: Failed to read image. The file may be inaccessible or corrupted.'')
    \<and> events (snd (process_image L w p)) = events w @
        [OsPathExists p, OsAccess p, OsStat p,
         Print (''File permissions: '' @ oct (st_mode f)),
         Print ''File is accessible and ready for processing.'',
         Imread p]"
proof -
  have c: "check_file_access w p =
     (Inr True, w\<lparr>events := events w @
        [OsPathExists p, OsAccess p, OsStat p,
         Print (''File permissions: '' @ oct (st_mode f)),
         Print ''File is accessible and ready for processing.'']\<rparr>)"
    using assms(1-3) by (rule check_file_access_ok)
  have i: "fst (cv2_imread L (snd (check_file_access w p)) p) = None"
    using assms by (simp add: cv2_imread_after_check)
  have b: "process_image_body L w p =
     (Inl (Exc ''RuntimeError''
        ''Failed to read image. The file may be inaccessible or corrupted.''),
      emit (Imread p) (snd (check_file_access w p)))"
    using i c by (simp add: process_image_body_eq)
  show ?thesis
    using c b by (simp add: process_image_def)
qed

lemma oct_33188: "oct 33188 = ''0o100644''"
  by (simp add: oct_def oct_digits.simps digit_char_def)

lemma st_mode_new_file: "st_mode (new_file bytes) = 33188"
  by (simp add: new_file_def S_IFREG_def)

lemma S_ISREG_new_file: "S_ISREG (st_mode (new_file bytes))"
  by (simp add: new_file_def S_ISREG_def S_IFMT_def S_IFREG_def)

lemma path_key_simple:
  "path_key ''empty.png'' = [''empty.png'']" "path_key ''scan.raw'' = [''scan.raw'']"
  "path_key ''pixel.raw'' = [''pixel.raw'']" "path_key ''secret.png'' = [''secret.png'']"
  "path_key ''missing.png'' = [''missing.png'']" "path_key ''locked'' = [''locked'']"
  "path_key ''output'' = [''output'']"
  by (simp_all add: path_key_def)

lemma demo_stat:
  "stat_path demo_world ''empty.png'' = Some (new_file [])"
  "stat_path demo_world ''scan.raw'' = Some (new_file [10, 200, 30, 250, 250, 250])"
  "stat_path demo_world ''pixel.raw'' = Some (new_file [0, 0, 0])"
  "stat_path demo_world ''missing.png'' = None"
  "stat_path demo_world ''output'' = None"
proof -
  have d: "\<not> dir_form ''empty.png''" "\<not> dir_form ''scan.raw''" "\<not> dir_form ''pixel.raw''"
    by (simp_all add: dir_form_def trailing_sep_def ends_dot_def components_def)
  show "stat_path demo_world ''empty.png'' = Some (new_file [])"
    "stat_path demo_world ''scan.raw'' = Some (new_file [10, 200, 30, 250, 250, 250])"
    "stat_path demo_world ''pixel.raw'' = Some (new_file [0, 0, 0])"
    by (simp_all add: stat_path_Some d path_key_simple demo_world_def demo_files_def)
  show "stat_path demo_world ''missing.png'' = None" "stat_path demo_world ''output'' = None"
    by (simp_all add: stat_path_None path_key_simple demo_world_def demo_files_def)
qed

theorem undecodable_file_fails_witness:
  "fst (check_file_access demo_world ''empty.png'') = Inr True
    \<and> fst (process_image demo_libs demo_world ''empty.png'') =
        Inl (Exc ''RuntimeError''
          ''Failed to process image: Failed to read image. The file may be inaccessible or corrupted.'')
    \<and> events (snd (process_image demo_libs demo_world ''empty.png'')) =
        [OsPathExists ''empty.png'', OsAccess ''empty.png'', OsStat ''empty.png'',
         Print ''File permissions: 0o100644'',
         Print ''File is accessible and ready for processing.'',
         Imread ''empty.png'']"
proof -
  have 1: "stat_path demo_world ''empty.png'' = Some (new_file [])" by (rule demo_stat)
  have 2: "r_ok (new_file [])" by (simp add: new_file_def)
  have 3: "S_ISREG (st_mode (new_file []))" by (rule S_ISREG_new_file)
  have 4: "imdecode demo_libs (file_data (new_file [])) = None"
    by (simp add: demo_libs_def new_file_def raw_decode_def)
  have 6: "events demo_world = []" by (simp add: demo_world_def)
  show ?thesis
    using undecodable_file_fails[OF 1 2 3 4]
    by (simp add: st_mode_new_file oct_33188 6)
qed

lemma process_image_decodable:
  assumes "stat_path w p = Some f" and "r_ok f" and "S_ISREG (st_mode f)"
    and "imdecode L (file_data f) = Some img"
  shows "process_image_body L w p =
     (image_to_string L (fst (preprocess L w img)),
      w\<lparr>events := events w @
        [OsPathExists p, OsAccess p, OsStat p,
         Print (''File permissions: '' @ oct (st_mode f)),
         Print ''File is accessible and ready for processing.'',
         Imread p,
         CvtColor COLOR_BGR2GRAY, Dilate (np_ones 1 1) 1, Erode (np_ones 1 1) 1,
         Threshold 128 255 (THRESH_BINARY + THRESH_OTSU),
         ImageToString]\<rparr>)"
proof -
  have c: "check_file_access w p =
     (Inr True, w\<lparr>events := events w @
        [OsPathExists p, OsAccess p, OsStat p,
         Print (''File permissions: '' @ oct (st_mode f)),
         Print ''File is accessible and ready for processing.'']\<rparr>)"
    using assms(1-3) by (rule check_file_access_ok)
  have i: "fst (cv2_imread L (snd (check_file_access w p)) p) = Some img"
    using assms by (simp add: cv2_imread_after_check)
  show ?thesis
    using c i by (simp add: process_image_body_eq preprocess_eq emit_def)
qed

text \<open>
  Claim C7. For every decodable input image the steps between decoding and recognition
  are exactly: conversion to grey (\<open>COLOR_BGR2GRAY\<close>), one dilation and then one erosion
  with the 1x1 kernel of ones, and \<open>cv2.threshold\<close> with threshold argument 128, maximum
  255 and type \<open>THRESH_BINARY + THRESH_OTSU\<close>; each step works on the output of the one
  before, and the engine receives the thresholded image. With the Otsu flag the cut is
  the threshold Otsu's method selects: a pixel above it becomes 255, any other 0.
\<close>

theorem preprocessing_steps:
  assumes "stat_path w p = Some f" and "r_ok f" and "S_ISREG (st_mode f)"
    and "imdecode L (file_data f) = Some img"
  shows "\<exists>gray img_dilated img_eroded img_thresh.
      gray = cvtColor L img COLOR_BGR2GRAY
    \<and> img_dilated = dilate L gray (np_ones 1 1) 1
    \<and> img_eroded = erode L img_dilated (np_ones 1 1) 1
    \<and> img_thresh = snd (cv2_threshold L img_eroded 128 255 (THRESH_BINARY + THRESH_OTSU))
    \<and> img_thresh = map (map (\<lambda>px. if unat px > otsu L img_eroded then 255 else 0)) img_eroded
    \<and> fst (preprocess L w img) = img_thresh
    \<and> fst (process_image_body L w p) = image_to_string L img_thresh
    \<and> events (snd (process_image L w p)) = events w @
        [OsPathExists p, OsAccess p, OsStat p,
         Print (''File permissions: '' @ oct (st_mode f)),
         Print ''File is accessible and ready for processing.'',
         Imread p,
         CvtColor COLOR_BGR2GRAY, Dilate (np_ones 1 1) 1, Erode (np_ones 1 1) 1,
         Threshold 128 255 (THRESH_BINARY + THRESH_OTSU),
         ImageToString]
    \<and> np_ones 1 1 = [[1]] \<and> COLOR_BGR2GRAY = 6 \<and> THRESH_BINARY + THRESH_OTSU = 8"
proof -
  note b = process_image_decodable[OF assms]
  have e: "events (snd (process_image L w p)) = events (snd (process_image_body L w p))"
    by (cases "process_image_body L w p"; cases "fst (process_image_body L w p)")
       (auto simp: process_image_def)
  have n: "np_ones 1 1 = [[1]] \<and> COLOR_BGR2GRAY = 6 \<and> THRESH_BINARY + THRESH_OTSU = 8"
    by (simp add: np_ones_def COLOR_BGR2GRAY_def THRESH_BINARY_def THRESH_OTSU_def)
  have m: "fst (preprocess L w img) =
      snd (cv2_threshold L
        (erode L (dilate L (cvtColor L img COLOR_BGR2GRAY) (np_ones 1 1) 1) (np_ones 1 1) 1)
        128 255 (THRESH_BINARY + THRESH_OTSU))"
    by (simp add: preprocess_eq)
  have t: "snd (cv2_threshold L src 128 255 (THRESH_BINARY + THRESH_OTSU)) =
      map (map (\<lambda>px. if unat px > otsu L src then 255 else 0)) src" for src
    by (simp add: threshold_binary_otsu)
  show ?thesis
    apply (intro exI conjI)
              apply (rule refl)
             apply (rule refl)
            apply (rule refl)
           apply (rule refl)
          apply (rule t)
         apply (rule m)
        apply (simp add: b m)
       apply (simp add: e b)
      apply (rule n[THEN conjunct1])
     apply (rule n[THEN conjunct2, THEN conjunct1])
    apply (rule n[THEN conjunct2, THEN conjunct2])
    done
qed

definition pixel_values :: "gray_image \<Rightarrow> byte set" where
  "pixel_values img = set (concat img)"

lemma demo_decode:
  "imdecode demo_libs (file_data (new_file [10, 200, 30, 250, 250, 250])) =
     Some [[(10, 200, 30), (250, 250, 250)]]"
  "imdecode demo_libs [0, 0, 0] = Some [[(0, 0, 0)]]"
  by (simp_all add: demo_libs_def new_file_def raw_decode_def)

theorem preprocessing_steps_witness:
  "fst (preprocess demo_libs demo_world [[(10, 200, 30), (250, 250, 250)]]) =
     snd (cv2_threshold demo_libs
       (erode demo_libs (dilate demo_libs
          (cvtColor demo_libs [[(10, 200, 30), (250, 250, 250)]] COLOR_BGR2GRAY)
          (np_ones 1 1) 1) (np_ones 1 1) 1)
       128 255 (THRESH_BINARY + THRESH_OTSU))
   \<and> events (snd (process_image demo_libs demo_world ''scan.raw'')) =
        [OsPathExists ''scan.raw'', OsAccess ''scan.raw'', OsStat ''scan.raw'',
         Print ''File permissions: 0o100644'',
         Print ''File is accessible and ready for processing.'',
         Imread ''scan.raw'',
         CvtColor 6, Dilate [[1]] 1, Erode [[1]] 1, Threshold 128 255 8, ImageToString]"
proof -
  have 1: "stat_path demo_world ''scan.raw'' = Some (new_file [10, 200, 30, 250, 250, 250])"
    by (rule demo_stat)
  have 2: "r_ok (new_file [10, 200, 30, 250, 250, 250])" by (simp add: new_file_def)
  have 3: "S_ISREG (st_mode (new_file [10, 200, 30, 250, 250, 250]))"
    by (rule S_ISREG_new_file)
  note 4 = demo_decode(1)
  have 6: "events demo_world = []" by (simp add: demo_world_def)
  from preprocessing_steps[OF 1 2 3 4]
  obtain gray img_dilated img_eroded img_thresh where
      g: "gray = cvtColor demo_libs [[(10, 200, 30), (250, 250, 250)]] COLOR_BGR2GRAY"
    and d: "img_dilated = dilate demo_libs gray (np_ones 1 1) 1"
    and e: "img_eroded = erode demo_libs img_dilated (np_ones 1 1) 1"
    and t: "img_thresh = snd (cv2_threshold demo_libs img_eroded 128 255 (THRESH_BINARY + THRESH_OTSU))"
    and p: "fst (preprocess demo_libs demo_world [[(10, 200, 30), (250, 250, 250)]]) = img_thresh"
    and ev: "events (snd (process_image demo_libs demo_world ''scan.raw'')) = events demo_world @
        [OsPathExists ''scan.raw'', OsAccess ''scan.raw'', OsStat ''scan.raw'',
         Print (''File permissions: '' @ oct (st_mode (new_file [10, 200, 30, 250, 250, 250]))),
         Print ''File is accessible and ready for processing.'',
         Imread ''scan.raw'',
         CvtColor COLOR_BGR2GRAY, Dilate (np_ones 1 1) 1, Erode (np_ones 1 1) 1,
         Threshold 128 255 (THRESH_BINARY + THRESH_OTSU),
         ImageToString]"
    and n: "np_ones 1 1 = [[1]]" "COLOR_BGR2GRAY = 6" "THRESH_BINARY + THRESH_OTSU = 8"
    by blast
  have "fst (preprocess demo_libs demo_world [[(10, 200, 30), (250, 250, 250)]]) =
     snd (cv2_threshold demo_libs
       (erode demo_libs (dilate demo_libs
          (cvtColor demo_libs [[(10, 200, 30), (250, 250, 250)]] COLOR_BGR2GRAY)
          (np_ones 1 1) 1) (np_ones 1 1) 1)
       128 255 (THRESH_BINARY + THRESH_OTSU))"
    using g d e t p by simp
  moreover have "events (snd (process_image demo_libs demo_world ''scan.raw'')) =
        [OsPathExists ''scan.raw'', OsAccess ''scan.raw'', OsStat ''scan.raw'',
         Print ''File permissions: 0o100644'',
         Print ''File is accessible and ready for processing.'',
         Imread ''scan.raw'',
         CvtColor 6, Dilate [[1]] 1, Erode [[1]] 1, Threshold 128 255 8, ImageToString]"
    unfolding ev n 6 st_mode_new_file oct_33188 by simp
  ultimately show ?thesis by (rule conjI)
qed

lemma thresh_values:
  "set (concat (map (map (\<lambda>px. if unat px > t then 255 else (0::byte))) src)) \<subseteq> {0, 255}"
  by auto

lemma thresh_image:
  "set (concat (map (map f) src)) = f ` set (concat src)"
  by (induction src) auto

text \<open>The image handed to \<open>cv2.threshold\<close>: \<open>img_eroded\<close> of the source.\<close>

definition img_eroded :: "libs \<Rightarrow> bgr_image \<Rightarrow> gray_image" where
  "img_eroded L img =
     erode L (dilate L (cvtColor L img COLOR_BGR2GRAY) (np_ones 1 1) 1) (np_ones 1 1) 1"

lemma preprocess_values:
  "pixel_values (fst (preprocess L w img)) =
     (\<lambda>p. if unat p > otsu L (img_eroded L img) then 255 else 0) ` pixel_values (img_eroded L img)"
  unfolding pixel_values_def preprocess_eq fst_conv threshold_binary_otsu snd_conv img_eroded_def
  by (rule thresh_image)

lemma two_values_card:
  fixes S :: "byte set"
  shows "card ((\<lambda>p. if P p then 255 else (0::byte)) ` S) = 2 \<longleftrightarrow>
     (\<exists>p\<in>S. P p) \<and> (\<exists>p\<in>S. \<not> P p)"
proof (cases "(\<exists>p\<in>S. P p) \<and> (\<exists>p\<in>S. \<not> P p)")
  case True
  then have "(\<lambda>p. if P p then 255 else (0::byte)) ` S = {0, 255}" by (auto simp: image_iff)
  then show ?thesis using True by simp
next
  case False
  then have "(\<lambda>p. if P p then 255 else (0::byte)) ` S \<subseteq> {0}
      \<or> (\<lambda>p. if P p then 255 else (0::byte)) ` S \<subseteq> {255}"
    by auto
  then have "card ((\<lambda>p. if P p then 255 else (0::byte)) ` S) \<le> 1"
    by (metis card_mono finite.emptyI finite.insertI is_singletonI is_singleton_altdef)
  then show ?thesis using False by simp
qed

text \<open>
  Claim C8, as the code has it. Every pixel of the preprocessed image is 0 or 255. The
  image has exactly two distinct values exactly when the image handed to the threshold
  step has a pixel above the threshold that Otsu's method selects and a pixel that is
  not above it. Otherwise, as for an image of a single colour, it has fewer than two.
\<close>

theorem preprocess_two_levels:
  "pixel_values (fst (preprocess L w img)) \<subseteq> {0, 255}
   \<and> card (pixel_values (fst (preprocess L w img))) \<le> 2
   \<and> (card (pixel_values (fst (preprocess L w img))) = 2 \<longleftrightarrow>
        (\<exists>p \<in> pixel_values (img_eroded L img). unat p > otsu L (img_eroded L img))
        \<and> (\<exists>p \<in> pixel_values (img_eroded L img). \<not> unat p > otsu L (img_eroded L img)))"
proof -
  have s: "pixel_values (fst (preprocess L w img)) \<subseteq> {0, 255}"
    unfolding preprocess_values by auto
  have "card (pixel_values (fst (preprocess L w img))) \<le> card {0 :: byte, 255}"
    using s by (intro card_mono) simp_all
  also have "\<dots> \<le> 2" by (simp add: card_insert_if)
  finally have c: "card (pixel_values (fst (preprocess L w img))) \<le> 2" .
  show ?thesis
    using s c unfolding preprocess_values
    by (simp only: two_values_card)
qed

text \<open>
  The claim as stated fails for the decodable image of one black pixel: its
  preprocessed image is the single pixel 0, one value and not two.
\<close>

theorem two_levels_counterexample:
  "imdecode demo_libs [0, 0, 0] = Some [[(0, 0, 0)]]
   \<and> fst (preprocess demo_libs demo_world [[(0, 0, 0)]]) = [[0]]
   \<and> card (pixel_values (fst (preprocess demo_libs demo_world [[(0, 0, 0)]]))) = 1"
proof -
  have g: "cvtColor demo_libs [[(0, 0, 0)]] COLOR_BGR2GRAY = [[0]]"
    by (simp add: demo_libs_def bgr2gray_def)
  have p: "fst (preprocess demo_libs demo_world [[(0, 0, 0)]]) = [[0]]"
    unfolding preprocess_eq fst_conv threshold_binary_otsu snd_conv g
    by (simp add: demo_libs_def)
  show ?thesis
    using demo_decode(2) p by (simp add: pixel_values_def)
qed

subsection \<open>The exact Otsu threshold separates two grey levels\<close>

lemma sum_list_le_bound: "(\<And>x. x \<in> set xs \<Longrightarrow> x \<le> (m::nat)) \<Longrightarrow> sum_list xs \<le> m * length xs"
  by (induction xs) (auto simp: add_mono)

lemma sum_list_ge_bound: "(\<And>x. x \<in> set xs \<Longrightarrow> (m::nat) \<le> x) \<Longrightarrow> m * length xs \<le> sum_list xs"
  by (induction xs) (auto simp: add_mono)

lemma between_class_split:
  assumes "snd (between_class pixels t) \<noteq> 0"
  shows "(\<exists>p\<in>set pixels. p \<le> t) \<and> (\<exists>p\<in>set pixels. p > t)"
proof -
  from assms have "filter (\<lambda>p. p \<le> t) pixels \<noteq> []" "filter (\<lambda>p. p > t) pixels \<noteq> []"
    by (auto simp: between_class_def Let_def)
  then show ?thesis by (auto simp: filter_empty_conv)
qed

lemma between_class_positive:
  assumes "a \<in> set pixels" "b \<in> set pixels" "a \<le> t" "t < b"
  shows "snd (between_class pixels t) \<noteq> 0 \<and> 0 < fst (between_class pixels t)"
proof -
  define lo where "lo = filter (\<lambda>p. p \<le> t) pixels"
  define hi where "hi = filter (\<lambda>p. p > t) pixels"
  have lo: "lo \<noteq> []" using assms(1,3) by (auto simp: lo_def filter_empty_conv)
  have hi: "hi \<noteq> []" using assms(2,4) by (auto simp: hi_def filter_empty_conv)
  have 1: "sum_list lo \<le> t * length lo"
    by (rule sum_list_le_bound) (simp add: lo_def)
  have 2: "Suc t * length hi \<le> sum_list hi"
    by (rule sum_list_ge_bound) (simp add: hi_def)
  have "sum_list lo * length hi \<le> t * length lo * length hi"
    using 1 by (simp add: mult_le_mono1)
  also have "\<dots> < Suc t * length hi * length lo"
    using lo hi by simp
  also have "\<dots> \<le> sum_list hi * length lo"
    using 2 by (simp add: mult_le_mono1)
  finally have lt: "sum_list lo * length hi < sum_list hi * length lo" .
  have "between_class pixels t =
      ((sum_list hi * length lo - sum_list lo * length hi)
         * (sum_list hi * length lo - sum_list lo * length hi), length lo * length hi)"
    using lt by (simp add: between_class_def Let_def lo_def hi_def)
  then show ?thesis using lt lo hi by simp
qed

definition otsu_step :: "nat list \<Rightarrow> nat \<Rightarrow> nat \<times> nat \<times> nat \<Rightarrow> nat \<times> nat \<times> nat" where
  "otsu_step pixels = (\<lambda>t (best, num, den).
     case between_class pixels t of (n, d) \<Rightarrow>
       if d \<noteq> 0 \<and> n * den > num * d then (t, n, d) else (best, num, den))"

lemma otsu_fold:
  "fold (otsu_step pixels) [0..<k] (0, 0, 1) = (best, num, den) \<Longrightarrow>
     den \<noteq> 0 \<and> (0 < num \<longrightarrow> snd (between_class pixels best) \<noteq> 0)
     \<and> ((\<exists>t<k. snd (between_class pixels t) \<noteq> 0 \<and> 0 < fst (between_class pixels t)) \<longrightarrow> 0 < num)"
proof (induction k arbitrary: best num den)
  case 0
  then show ?case by simp
next
  case (Suc k)
  obtain b1 n1 d1 where s: "fold (otsu_step pixels) [0..<k] (0, 0, 1) = (b1, n1, d1)"
    by (cases "fold (otsu_step pixels) [0..<k] (0, 0, 1)")
  note ih = Suc.IH[OF s]
  obtain n d where bc: "between_class pixels k = (n, d)" by (cases "between_class pixels k")
  have step: "(best, num, den) = otsu_step pixels k (b1, n1, d1)"
    using Suc.prems s by simp
  show ?case
  proof (cases "d \<noteq> 0 \<and> n * d1 > n1 * d")
    case True
    then have e: "best = k" "num = n" "den = d" using step bc by (simp_all add: otsu_step_def)
    have "0 < n" using True by (cases n) auto
    then show ?thesis using e True bc by simp
  next
    case False
    then have e: "best = b1" "num = n1" "den = d1"
      using step bc by (auto simp: otsu_step_def split: if_splits)
    have "0 < n1" if "d \<noteq> 0" "0 < n"
    proof (rule ccontr)
      assume "\<not> 0 < n1"
      then have "n * d1 > n1 * d" using that ih by simp
      with that False show False by simp
    qed
    then show ?thesis using e ih bc by (auto simp: less_Suc_eq)
  qed
qed

lemma otsu_exact_separates:
  assumes "a \<in> set (concat img)" "b \<in> set (concat img)" "unat a < unat b"
  shows "(\<exists>p\<in>set (concat img). unat p > otsu_exact img)
       \<and> (\<exists>p\<in>set (concat img). \<not> unat p > otsu_exact img)"
proof -
  define pixels where "pixels = map unat (concat img)"
  obtain best num den where f: "fold (otsu_step pixels) [0..<256] (0, 0, 1) = (best, num, den)"
    by (cases "fold (otsu_step pixels) [0..<256] (0, 0, 1)")
  have o: "otsu_exact img = best"
    using f by (simp add: otsu_exact_def Let_def otsu_step_def pixels_def)
  have "unat a < 2 ^ LENGTH(8)" by (rule unsigned_less)
  then have "unat a < 256" by simp
  moreover have "snd (between_class pixels (unat a)) \<noteq> 0 \<and> 0 < fst (between_class pixels (unat a))"
    using assms by (intro between_class_positive[of "unat a" _ "unat b"]) (auto simp: pixels_def)
  ultimately have "0 < num" using otsu_fold[OF f] by blast
  then have "snd (between_class pixels best) \<noteq> 0" using otsu_fold[OF f] by blast
  from between_class_split[OF this] show ?thesis
    unfolding o by (auto simp: pixels_def not_less)
qed

lemma demo_gray:
  "img_eroded demo_libs [[(10, 200, 30), (250, 250, 250)]] = [[128, 250]]"
  by (simp add: img_eroded_def demo_libs_def bgr2gray_def)

theorem preprocess_two_levels_witness:
  "pixel_values (fst (preprocess demo_libs demo_world [[(10, 200, 30), (250, 250, 250)]])) \<subseteq> {0, 255}
   \<and> card (pixel_values (fst (preprocess demo_libs demo_world [[(10, 200, 30), (250, 250, 250)]]))) = 2"
proof -
  have o: "otsu demo_libs = otsu_exact" by (simp add: demo_libs_def)
  have "(128::byte) \<in> set (concat [[128, 250]])" "(250::byte) \<in> set (concat [[128, 250]])"
    "unat (128::byte) < unat (250::byte)"
    by simp_all
  from otsu_exact_separates[OF this]
  have "(\<exists>p \<in> pixel_values [[128, 250]]. unat p > otsu_exact [[128, 250]])
        \<and> (\<exists>p \<in> pixel_values [[128, 250]]. \<not> unat p > otsu_exact [[128, 250]])"
    by (simp only: pixel_values_def)
  then show ?thesis
    using preprocess_two_levels[of demo_libs demo_world "[[(10, 200, 30), (250, 250, 250)]]"]
    by (simp only: demo_gray o)
qed

lemma fst_preprocess_world: "fst (preprocess L w img) = fst (preprocess L w' img)"
  by (simp add: preprocess_eq)

lemma process_image_wrap:
  "fst (process_image L w p) =
     (case fst (process_image_body L w p) of
        Inl e \<Rightarrow> Inl (Exc ''RuntimeError'' (''Failed to process image: '' @ exc_str e))
      | Inr t \<Rightarrow> Inr t)"
  by (cases "process_image_body L w p"; cases "fst (process_image_body L w p)")
     (auto simp: process_image_def)

lemma save_to_pdf_wrap:
  "fst (save_to_pdf L w t d) =
     (case fst (save_to_pdf_body L w t d) of
        Inl e \<Rightarrow> Inl (Exc ''RuntimeError'' (''Failed to save PDF: '' @ exc_str e))
      | Inr f \<Rightarrow> Inr f)"
  by (cases "save_to_pdf_body L w t d"; cases "fst (save_to_pdf_body L w t d)")
     (auto simp: save_to_pdf_def)

text \<open>
  Claim C4, as the code has it. The code has one error kind. Whatever fails inside
  \<open>process_image\<close> reaches the caller as a \<open>RuntimeError\<close> whose message is
  \<open>Failed to process image: \<close> followed by the message of the cause: \<open>File is not
  accessible.\<close> when access validation fails, \<open>Failed to read image. ...\<close> when decoding
  fails, and the message of the engine's exception when recognition fails. Whatever
  fails inside \<open>save_to_pdf\<close> reaches the caller as a \<open>RuntimeError\<close> whose message is
  \<open>Failed to save PDF: \<close> followed by the message of the cause. Access validation
  itself raises nothing.
\<close>

theorem failures_are_runtime_errors:
  "(\<exists>ok. fst (check_file_access w p) = Inr ok)
   \<and> (fst (check_file_access w p) = Inr False \<longrightarrow>
        fst (process_image L w p) =
          Inl (Exc ''RuntimeError'' ''Failed to process image: File is not accessible.''))
   \<and> (fst (check_file_access w p) = Inr True
        \<and> fst (cv2_imread L (snd (check_file_access w p)) p) = None \<longrightarrow>
        fst (process_image L w p) =
          Inl (Exc ''RuntimeError''
            ''Failed to process image: Failed to read image. The file may be inaccessible or corrupted.''))
   \<and> (\<forall>img e. fst (check_file_access w p) = Inr True
        \<and> fst (cv2_imread L (snd (check_file_access w p)) p) = Some img
        \<and> image_to_string L (fst (preprocess L w img)) = Inl e \<longrightarrow>
        fst (process_image L w p) =
          Inl (Exc ''RuntimeError'' (''Failed to process image: '' @ exc_str e)))
   \<and> (\<forall>e. fst (save_to_pdf_body L w t d) = Inl e \<longrightarrow>
        fst (save_to_pdf L w t d) =
          Inl (Exc ''RuntimeError'' (''Failed to save PDF: '' @ exc_str e)))
   \<and> (\<forall>e. fst (process_image L w p) = Inl e \<longrightarrow> exc_class e = ''RuntimeError'')
   \<and> (\<forall>e. fst (save_to_pdf L w t d) = Inl e \<longrightarrow> exc_class e = ''RuntimeError'')"
proof (intro conjI allI impI)
  show "\<exists>ok. fst (check_file_access w p) = Inr ok"
    by (rule check_file_access_never_raises)
next
  assume "fst (check_file_access w p) = Inr False"
  then show "fst (process_image L w p) =
      Inl (Exc ''RuntimeError'' ''Failed to process image: File is not accessible.'')"
    by (simp add: process_image_wrap process_image_body_eq)
next
  assume "fst (check_file_access w p) = Inr True
        \<and> fst (cv2_imread L (snd (check_file_access w p)) p) = None"
  then show "fst (process_image L w p) =
      Inl (Exc ''RuntimeError''
        ''Failed to process image: Failed to read image. The file may be inaccessible or corrupted.'')"
    by (simp add: process_image_wrap process_image_body_eq)
next
  fix img e
  assume "fst (check_file_access w p) = Inr True
        \<and> fst (cv2_imread L (snd (check_file_access w p)) p) = Some img
        \<and> image_to_string L (fst (preprocess L w img)) = Inl e"
  then show "fst (process_image L w p) =
      Inl (Exc ''RuntimeError'' (''Failed to process image: '' @ exc_str e))"
    by (simp add: process_image_wrap process_image_body_eq)
next
  fix e assume "fst (save_to_pdf_body L w t d) = Inl e"
  then show "fst (save_to_pdf L w t d) =
      Inl (Exc ''RuntimeError'' (''Failed to save PDF: '' @ exc_str e))"
    by (simp add: save_to_pdf_wrap)
next
  fix e assume "fst (process_image L w p) = Inl e"
  then show "exc_class e = ''RuntimeError''"
    by (auto simp: process_image_wrap split: sum.splits)
next
  fix e assume "fst (save_to_pdf L w t d) = Inl e"
  then show "exc_class e = ''RuntimeError''"
    by (auto simp: save_to_pdf_wrap split: sum.splits)
qed

lemma demo_check:
  "fst (check_file_access demo_world ''missing.png'') = Inr False"
  "fst (check_file_access demo_world ''empty.png'') = Inr True"
  "fst (check_file_access demo_world ''scan.raw'') = Inr True"
  by (simp_all add: check_file_access_eq demo_stat new_file_def S_ISREG_def S_IFMT_def S_IFREG_def)

lemma demo_imread:
  "fst (cv2_imread L (snd (check_file_access demo_world ''empty.png'')) ''empty.png'') =
     imdecode L []"
  "fst (cv2_imread L (snd (check_file_access demo_world ''scan.raw'')) ''scan.raw'') =
     imdecode L [10, 200, 30, 250, 250, 250]"
  by (simp_all add: cv2_imread_after_check demo_stat S_ISREG_new_file)
     (simp_all add: new_file_def)

lemma no_engine_decode:
  "imdecode no_engine_libs [10, 200, 30, 250, 250, 250] = Some [[(10, 200, 30), (250, 250, 250)]]"
  "imdecode demo_libs [] = None"
  by (simp_all add: no_engine_libs_def demo_libs_def raw_decode_def)

lemma no_engine_raises:
  "image_to_string no_engine_libs img =
     Inl (Exc ''TesseractNotFoundError'' ''tesseract is not installed or it is not in your PATH'')"
  by (simp add: no_engine_libs_def)

lemma path_key_locked_out: "path_key ''locked/out'' = [''locked'', ''out'']"
  by (simp add: path_key_def)

lemma S_ISDIR_new_dir: "S_ISDIR (st_mode (new_dir\<lparr>w_ok := b\<rparr>))" "S_ISDIR (st_mode new_dir)"
  by (simp_all add: new_dir_def S_ISDIR_def S_IFMT_def S_IFDIR_def)

lemma demo_locked_out:
  "fst (save_to_pdf_body demo_libs demo_world ''hi'' ''locked/out'') =
     Inl (Exc ''PermissionError'' (''[Errno 13] Permission denied: '' @ quoted ''locked/out''))"
proof -
  have f: "fs demo_world [''locked'', ''out''] = None"
    "fs demo_world [''locked''] = Some (new_dir\<lparr>w_ok := False\<rparr>)"
    by (simp_all add: demo_world_def demo_files_def)
  have p: "makedirs_parts ''locked/out'' = (''locked'', ''out'')"
    by (simp add: makedirs_parts_def path_split_def rstrip_sep_def Let_def)
  have d: "\<not> ends_dot ''locked/out''" "\<not> dir_form ''locked''"
    by (simp_all add: dir_form_def trailing_sep_def ends_dot_def components_def)
  have h: "stat_path demo_world ''locked'' = Some (new_dir\<lparr>w_ok := False\<rparr>)"
    by (simp add: stat_path_Some path_key_simple f d)
  have n: "stat_path demo_world ''locked/out'' = None"
    by (simp add: stat_path_None path_key_locked_out f)
  have k: "mkdir_path (fs demo_world) ''locked/out'' = Inl (EACCES ''locked/out'')"
    by (simp add: mkdir_path_def path_key_locked_out d f parent_error_def S_ISDIR_new_dir)
  have m: "makedirs_files (fs demo_world) ''locked/out'' =
     (Some (EACCES ''locked/out''), fs demo_world)"
    by (subst makedirs_files.simps) (simp add: p stat_files_Inr[OF h] mkdir_step_def k)
  show ?thesis
    by (simp add: save_to_pdf_body_def os_path_exists_def n os_makedirs_def m EACCES_def)
qed

theorem failures_are_runtime_errors_witness:
  "fst (process_image demo_libs demo_world ''missing.png'') =
     Inl (Exc ''RuntimeError'' ''Failed to process image: File is not accessible.'')
   \<and> fst (process_image demo_libs demo_world ''empty.png'') =
     Inl (Exc ''RuntimeError''
       ''Failed to process image: Failed to read image. The file may be inaccessible or corrupted.'')
   \<and> fst (process_image no_engine_libs demo_world ''scan.raw'') =
     Inl (Exc ''RuntimeError''
       ''Failed to process image: tesseract is not installed or it is not in your PATH'')
   \<and> fst (save_to_pdf demo_libs demo_world ''hi'' ''locked/out'') =
     Inl (Exc ''RuntimeError''
       (''Failed to save PDF: [Errno 13] Permission denied: '' @ quoted ''locked/out''))
   \<and> exc_class (Exc ''RuntimeError''
       (''Failed to save PDF: [Errno 13] Permission denied: '' @ quoted ''locked/out'')) =
     ''RuntimeError''"
proof -
  note A = failures_are_runtime_errors[of demo_world "''missing.png''" demo_libs "''hi''" "''locked/out''"]
  note B = failures_are_runtime_errors[of demo_world "''empty.png''" demo_libs "''hi''" "''locked/out''"]
  note C = failures_are_runtime_errors[of demo_world "''scan.raw''" no_engine_libs "''hi''" "''locked/out''"]
  have 1: "fst (process_image demo_libs demo_world ''missing.png'') =
     Inl (Exc ''RuntimeError'' ''Failed to process image: File is not accessible.'')"
    using A demo_check(1) by blast
  have 2: "fst (process_image demo_libs demo_world ''empty.png'') =
     Inl (Exc ''RuntimeError''
       ''Failed to process image: Failed to read image. The file may be inaccessible or corrupted.'')"
    using B demo_check(2) demo_imread(1)[of demo_libs] no_engine_decode(2) by simp
  have "fst (process_image no_engine_libs demo_world ''scan.raw'') =
     Inl (Exc ''RuntimeError'' (''Failed to process image: '' @
       exc_str (Exc ''TesseractNotFoundError'' ''tesseract is not installed or it is not in your PATH'')))"
    using C demo_check(3) demo_imread(2)[of no_engine_libs] no_engine_decode(1)
      no_engine_raises by metis
  then have 3: "fst (process_image no_engine_libs demo_world ''scan.raw'') =
     Inl (Exc ''RuntimeError''
       ''Failed to process image: tesseract is not installed or it is not in your PATH'')"
    by simp
  have "fst (save_to_pdf demo_libs demo_world ''hi'' ''locked/out'') =
     Inl (Exc ''RuntimeError'' (''Failed to save PDF: '' @
       exc_str (Exc ''PermissionError'' (''[Errno 13] Permission denied: '' @ quoted ''locked/out''))))"
    using A demo_locked_out by blast
  then have 4: "fst (save_to_pdf demo_libs demo_world ''hi'' ''locked/out'') =
     Inl (Exc ''RuntimeError''
       (''Failed to save PDF: [Errno 13] Permission denied: '' @ quoted ''locked/out''))"
    by simp
  have 5: "exc_class (Exc ''RuntimeError''
       (''Failed to save PDF: [Errno 13] Permission denied: '' @ quoted ''locked/out'')) =
     ''RuntimeError''"
    using A 4 by blast
  show ?thesis using 1 2 3 4 5 by blast
qed

text \<open>
  The claim as stated fails. A missing file, an undecodable file, a missing engine and
  an unwritable output directory all give the caller the same kind, \<open>RuntimeError\<close>;
  and the engine's \<open>TesseractNotFoundError\<close> and the operating system's
  \<open>PermissionError\<close> are not surfaced unchanged: the caller sees a new \<open>RuntimeError\<close>
  that keeps only their message.
\<close>

theorem error_kinds_counterexample:
  "exc_class (projl (fst (process_image demo_libs demo_world ''missing.png''))) = ''RuntimeError''
   \<and> exc_class (projl (fst (process_image demo_libs demo_world ''empty.png''))) = ''RuntimeError''
   \<and> image_to_string no_engine_libs (fst (preprocess no_engine_libs demo_world
        [[(10, 200, 30), (250, 250, 250)]])) =
     Inl (Exc ''TesseractNotFoundError'' ''tesseract is not installed or it is not in your PATH'')
   \<and> fst (process_image no_engine_libs demo_world ''scan.raw'') =
     Inl (Exc ''RuntimeError''
       ''Failed to process image: tesseract is not installed or it is not in your PATH'')
   \<and> fst (save_to_pdf_body demo_libs demo_world ''hi'' ''locked/out'') =
     Inl (Exc ''PermissionError'' (''[Errno 13] Permission denied: '' @ quoted ''locked/out''))
   \<and> fst (save_to_pdf demo_libs demo_world ''hi'' ''locked/out'') =
     Inl (Exc ''RuntimeError''
       (''Failed to save PDF: [Errno 13] Permission denied: '' @ quoted ''locked/out''))"
proof -
  have 1: "fst (process_image demo_libs demo_world ''missing.png'') =
     Inl (Exc ''RuntimeError'' ''Failed to process image: File is not accessible.'')"
    by (simp add: process_image_wrap process_image_body_eq demo_check)
  have 2: "fst (process_image demo_libs demo_world ''empty.png'') =
     Inl (Exc ''RuntimeError''
       ''Failed to process image: Failed to read image. The file may be inaccessible or corrupted.'')"
    by (simp add: process_image_wrap process_image_body_eq demo_check demo_imread no_engine_decode)
  have 3: "fst (process_image no_engine_libs demo_world ''scan.raw'') =
     Inl (Exc ''RuntimeError''
       ''Failed to process image: tesseract is not installed or it is not in your PATH'')"
    by (simp add: process_image_wrap process_image_body_eq demo_check demo_imread
          no_engine_decode no_engine_raises)
  have 4: "fst (save_to_pdf demo_libs demo_world ''hi'' ''locked/out'') =
     Inl (Exc ''RuntimeError''
       (''Failed to save PDF: [Errno 13] Permission denied: '' @ quoted ''locked/out''))"
    by (simp add: save_to_pdf_wrap demo_locked_out)
  show ?thesis
    unfolding 1 2 3 4 demo_locked_out no_engine_raises by simp
qed

text \<open>
  Claim C6 names the error \<open>ImageError(DecodeFailed)\<close>. The code has no such kind: for
  the 0-byte file \<open>empty.png\<close> access validation succeeds and the caller gets a
  \<open>RuntimeError\<close>, the class it also gets for a file that fails access validation. Only
  the message tells the decode failure from the others.
\<close>

theorem decode_failure_kind_counterexample:
  "fst (check_file_access demo_world ''empty.png'') = Inr True
   \<and> exc_class (projl (fst (process_image_body demo_libs demo_world ''empty.png''))) = ''RuntimeError''
   \<and> exc_class (projl (fst (process_image demo_libs demo_world ''empty.png''))) = ''RuntimeError''
   \<and> exc_class (projl (fst (process_image demo_libs demo_world ''empty.png''))) \<noteq> ''ImageError''
   \<and> exc_class (projl (fst (process_image demo_libs demo_world ''empty.png''))) =
       exc_class (projl (fst (process_image demo_libs demo_world ''missing.png'')))
   \<and> exc_str (projl (fst (process_image demo_libs demo_world ''empty.png''))) \<noteq>
       exc_str (projl (fst (process_image demo_libs demo_world ''missing.png'')))"
proof -
  have 0: "fst (process_image_body demo_libs demo_world ''empty.png'') =
     Inl (Exc ''RuntimeError'' ''Failed to read image. The file may be inaccessible or corrupted.'')"
    by (simp add: process_image_body_eq demo_check demo_imread no_engine_decode)
  have 1: "fst (process_image demo_libs demo_world ''missing.png'') =
     Inl (Exc ''RuntimeError'' ''Failed to process image: File is not accessible.'')"
    by (simp add: process_image_wrap process_image_body_eq demo_check)
  have 2: "fst (process_image demo_libs demo_world ''empty.png'') =
     Inl (Exc ''RuntimeError''
       ''Failed to process image: Failed to read image. The file may be inaccessible or corrupted.'')"
    by (simp add: process_image_wrap process_image_body_eq demo_check demo_imread no_engine_decode)
  show ?thesis
    unfolding 0 1 2 using demo_check(2) by simp
qed

subsection \<open>The time stamp determines the second\<close>














subsection \<open>Paths of the artifact\<close>








definition pdf_name :: "datetime \<Rightarrow> string" where
  "pdf_name dt = ''converted_'' @ strftime_stamp dt @ ''.pdf''"



lemma pdf_name_inj: "pdf_name t1 = pdf_name t2 \<Longrightarrow> strftime_stamp t1 = strftime_stamp t2"
  by (simp add: pdf_name_def)

subsection \<open>What a successful write changes\<close>













lemma stat_path_now [simp]: "stat_path (w\<lparr>now := t\<rparr>) q = stat_path w q"
  by (simp add: stat_path_def)





subsection \<open>Two writes into a new directory\<close>






























section \<open>Text similarity: \<open>OCRProcessor.calculate_similarity\<close>\<close>

text \<open>
  The source is one line,
  \<^verbatim>\<open>return SequenceMatcher(None, text1, text2).ratio() * 100\<close>,
  so what it computes is decided by \<open>difflib.SequenceMatcher\<close> of the Python standard
  library, called with \<open>isjunk = None\<close> and the default \<open>autojunk = True\<close>. The
  definitions of this section follow CPython's \<open>Lib/difflib.py\<close> method by method
  (\<open>__chain_b\<close>, \<open>find_longest_match\<close>, \<open>get_matching_blocks\<close>, \<open>ratio\<close>,
  \<open>_calculate_ratio\<close>).

  Indices are natural numbers. Python's \<open>j2len.get(j-1, 0)\<close> at \<open>j = 0\<close> asks for the key
  \<open>-1\<close>, which is never present, so the model answers \<open>0\<close> there; and \<open>i-k+1\<close> is written
  \<open>i + 1 - k\<close>, which is the same integer whenever it is not negative.
\<close>

subsection \<open>\<open>__chain_b\<close>: the index of the second sequence\<close>

text \<open>
  \<^verbatim>\<open>for i, elt in enumerate(b): indices = b2j.setdefault(elt, []); indices.append(i)\<close>
\<close>

definition setdefault_append :: "nat \<times> 'a \<Rightarrow> ('a \<rightharpoonup> nat list) \<Rightarrow> ('a \<rightharpoonup> nat list)" where
  "setdefault_append = (\<lambda>(i, elt) b2j.
     b2j(elt \<mapsto> (case b2j elt of None \<Rightarrow> [] | Some indices \<Rightarrow> indices) @ [i]))"

definition chain_b_all :: "'a list \<Rightarrow> ('a \<rightharpoonup> nat list)" where
  "chain_b_all b = fold setdefault_append (enumerate 0 b) Map.empty"

text \<open>
  With \<open>isjunk = None\<close> the junk purge is skipped and \<open>bjunk\<close> stays the empty set.
  The popularity purge (\<open>autojunk\<close>):
  \<^verbatim>\<open>
  n = len(b)
  if self.autojunk and n >= 200:
      ntest = n // 100 + 1
      for elt, idxs in b2j.items():
          if len(idxs) > ntest: popular.add(elt)
      for elt in popular: del b2j[elt]
  \<close>
\<close>

definition purge_popular :: "nat \<Rightarrow> ('a \<rightharpoonup> nat list) \<Rightarrow> ('a \<rightharpoonup> nat list)" where
  "purge_popular ntest b2j =
     (\<lambda>elt. case b2j elt of
               None \<Rightarrow> None
             | Some idxs \<Rightarrow> if length idxs > ntest then None else Some idxs)"

definition chain_b :: "'a list \<Rightarrow> ('a \<rightharpoonup> nat list)" where
  "chain_b b =
     (let b2j = chain_b_all b; n = length b
      in if n \<ge> 200 then purge_popular (n div 100 + 1) b2j else b2j)"

subsection \<open>\<open>find_longest_match\<close>\<close>

text \<open>
  The inner loop over the positions of \<open>a[i]\<close> in \<open>b\<close>:
  \<^verbatim>\<open>
  for j in b2j.get(a[i], nothing):
      if j < blo: continue
      if j >= bhi: break
      k = newj2len[j] = j2lenget(j-1, 0) + 1
      if k > bestsize:
          besti, bestj, bestsize = i-k+1, j-k+1, k
  \<close>
  The loop state is \<open>(newj2len, besti, bestj, bestsize)\<close>.
\<close>

type_synonym scan_state = "(nat \<rightharpoonup> nat) \<times> nat \<times> nat \<times> nat"

definition j2lenget :: "(nat \<rightharpoonup> nat) \<Rightarrow> nat \<Rightarrow> nat" where
  "j2lenget j2len j =
     (if j = 0 then 0 else case j2len (j - 1) of None \<Rightarrow> 0 | Some v \<Rightarrow> v)"

definition scan_cell :: "nat \<Rightarrow> (nat \<rightharpoonup> nat) \<Rightarrow> nat \<Rightarrow> scan_state \<Rightarrow> scan_state" where
  "scan_cell i j2len j = (\<lambda>(newj2len, besti, bestj, bestsize).
     (let k = j2lenget j2len j + 1;
          newj2len' = newj2len(j \<mapsto> k)
      in if k > bestsize then (newj2len', i + 1 - k, j + 1 - k, k)
         else (newj2len', besti, bestj, bestsize)))"

fun scan_row :: "nat \<Rightarrow> nat \<Rightarrow> nat \<Rightarrow> (nat \<rightharpoonup> nat) \<Rightarrow> nat list \<Rightarrow> scan_state \<Rightarrow> scan_state" where
  "scan_row i blo bhi j2len [] st = st"
| "scan_row i blo bhi j2len (j # js) st =
     (if j < blo then scan_row i blo bhi j2len js st
      else if j \<ge> bhi then st
      else scan_row i blo bhi j2len js (scan_cell i j2len j st))"

text \<open>
  The outer loop:
  \<^verbatim>\<open>
  besti, bestj, bestsize = alo, blo, 0
  j2len = {}
  for i in range(alo, ahi):
      newj2len = {}
      for j in b2j.get(a[i], nothing): ...
      j2len = newj2len
  \<close>
\<close>

definition b2j_get :: "('a \<rightharpoonup> nat list) \<Rightarrow> 'a \<Rightarrow> nat list" where
  "b2j_get b2j x = (case b2j x of None \<Rightarrow> [] | Some js \<Rightarrow> js)"

definition scan_step :: "'a list \<Rightarrow> ('a \<rightharpoonup> nat list) \<Rightarrow> nat \<Rightarrow> nat \<Rightarrow> nat \<Rightarrow> scan_state \<Rightarrow> scan_state" where
  "scan_step a b2j blo bhi i = (\<lambda>(j2len, besti, bestj, bestsize).
     scan_row i blo bhi j2len (b2j_get b2j (a ! i)) (Map.empty, besti, bestj, bestsize))"

definition scan :: "'a list \<Rightarrow> ('a \<rightharpoonup> nat list) \<Rightarrow> nat \<Rightarrow> nat \<Rightarrow> nat \<Rightarrow> nat \<Rightarrow> scan_state" where
  "scan a b2j alo ahi blo bhi =
     fold (scan_step a b2j blo bhi) [alo..<ahi] (Map.empty, alo, blo, 0)"

text \<open>
  The four extension loops. The first two extend the block over elements that are not
  junk, the last two over junk; \<open>ok\<close> is the test on \<open>b\<close>'s element.
  \<^verbatim>\<open>
  while besti > alo and bestj > blo and \
        not isbjunk(b[bestj-1]) and a[besti-1] == b[bestj-1]:
      besti, bestj, bestsize = besti-1, bestj-1, bestsize+1
  while besti+bestsize < ahi and bestj+bestsize < bhi and \
        not isbjunk(b[bestj+bestsize]) and a[besti+bestsize] == b[bestj+bestsize]:
      bestsize += 1
  \<close>
\<close>

type_synonym block = "nat \<times> nat \<times> nat"

function extend_left :: "'a list \<Rightarrow> 'a list \<Rightarrow> ('a \<Rightarrow> bool) \<Rightarrow> nat \<Rightarrow> nat \<Rightarrow> block \<Rightarrow> block" where
  "extend_left a b ok alo blo (besti, bestj, bestsize) =
     (if besti > alo \<and> bestj > blo \<and> ok (b ! (bestj - 1)) \<and> a ! (besti - 1) = b ! (bestj - 1)
      then extend_left a b ok alo blo (besti - 1, bestj - 1, bestsize + 1)
      else (besti, bestj, bestsize))"
  by pat_completeness auto
termination
  by (relation "measure (\<lambda>(a, b, ok, alo, blo, besti, bestj, bestsize). besti)") auto

declare extend_left.simps [simp del]

function extend_right :: "'a list \<Rightarrow> 'a list \<Rightarrow> ('a \<Rightarrow> bool) \<Rightarrow> nat \<Rightarrow> nat \<Rightarrow> block \<Rightarrow> block" where
  "extend_right a b ok ahi bhi (besti, bestj, bestsize) =
     (if besti + bestsize < ahi \<and> bestj + bestsize < bhi \<and> ok (b ! (bestj + bestsize))
         \<and> a ! (besti + bestsize) = b ! (bestj + bestsize)
      then extend_right a b ok ahi bhi (besti, bestj, bestsize + 1)
      else (besti, bestj, bestsize))"
  by pat_completeness auto
termination
  by (relation "measure (\<lambda>(a, b, ok, ahi, bhi, besti, bestj, bestsize). ahi - (besti + bestsize))") auto

declare extend_right.simps [simp del]

definition find_longest_match ::
  "'a list \<Rightarrow> 'a list \<Rightarrow> ('a \<rightharpoonup> nat list) \<Rightarrow> 'a set \<Rightarrow> nat \<Rightarrow> nat \<Rightarrow> nat \<Rightarrow> nat \<Rightarrow> block" where
  "find_longest_match a b b2j bjunk alo ahi blo bhi =
     (let best0 = snd (scan a b2j alo ahi blo bhi);
          best1 = extend_left a b (\<lambda>x. x \<notin> bjunk) alo blo best0;
          best2 = extend_right a b (\<lambda>x. x \<notin> bjunk) ahi bhi best1;
          best3 = extend_left a b (\<lambda>x. x \<in> bjunk) alo blo best2;
          best4 = extend_right a b (\<lambda>x. x \<in> bjunk) ahi bhi best3
      in best4)"

subsection \<open>The block returned lies inside the window\<close>

text \<open>
  \<open>find_longest_match\<close> returns \<open>(alo, blo, 0)\<close> or a block of positive size inside
  \<open>a[alo:ahi]\<close> and \<open>b[blo:bhi]\<close>. The worklist loop of \<open>get_matching_blocks\<close>
  terminates because of it.
\<close>

definition block_in :: "nat \<Rightarrow> nat \<Rightarrow> nat \<Rightarrow> nat \<Rightarrow> block \<Rightarrow> bool" where
  "block_in alo ahi blo bhi = (\<lambda>(i, j, k).
     (k = 0 \<and> i = alo \<and> j = blo) \<or> (0 < k \<and> alo \<le> i \<and> i + k \<le> ahi \<and> blo \<le> j \<and> j + k \<le> bhi))"

definition j2len_bounded :: "nat \<Rightarrow> nat \<Rightarrow> nat \<Rightarrow> nat \<Rightarrow> (nat \<rightharpoonup> nat) \<Rightarrow> bool" where
  "j2len_bounded alo blo bhi i j2len =
     (\<forall>j v. j2len j = Some v \<longrightarrow> 0 < v \<and> v \<le> i - alo \<and> blo \<le> j \<and> j < bhi \<and> v \<le> j + 1 - blo)"

lemma j2lenget_bounded:
  assumes "j2len_bounded alo blo bhi i j2len" "blo \<le> j"
  shows "j2lenget j2len j \<le> i - alo \<and> j2lenget j2len j \<le> j - blo"
proof (cases "j = 0")
  case True then show ?thesis by (simp add: j2lenget_def)
next
  case False
  show ?thesis
  proof (cases "j2len (j - 1)")
    case None then show ?thesis using False by (simp add: j2lenget_def)
  next
    case (Some v)
    with assms(1) have "v \<le> i - alo" "blo \<le> j - 1" "v \<le> (j - 1) + 1 - blo"
      unfolding j2len_bounded_def by blast+
    then show ?thesis using False Some by (simp add: j2lenget_def)
  qed
qed

lemma scan_cell_bounds:
  assumes "j2len_bounded alo blo bhi i j2len" "alo \<le> i" "i < ahi" "blo \<le> j" "j < bhi"
    and "j2len_bounded alo blo bhi (Suc i) new" "block_in alo ahi blo bhi best"
    and "scan_cell i j2len j (new, best) = (new', best')"
  shows "j2len_bounded alo blo bhi (Suc i) new' \<and> block_in alo ahi blo bhi best'"
proof -
  obtain bi bj bk where best: "best = (bi, bj, bk)" by (cases best)
  define k where "k = j2lenget j2len j + 1"
  have kb: "k \<le> Suc i - alo" "k \<le> j + 1 - blo" "0 < k"
    using j2lenget_bounded[OF assms(1,4)] assms(2,4) by (auto simp: k_def)
  have new': "new' = new(j \<mapsto> k)"
    using assms(8) by (auto simp: scan_cell_def best k_def Let_def split: if_splits)
  have 1: "j2len_bounded alo blo bhi (Suc i) new'"
    using assms(6) kb assms(4,5) unfolding new' j2len_bounded_def by auto
  have 2: "block_in alo ahi blo bhi best'"
  proof (cases "k > bk")
    case True
    then have "best' = (i + 1 - k, j + 1 - k, k)"
      using assms(8) by (auto simp: scan_cell_def best k_def Let_def)
    then show ?thesis using kb assms(2,3,4,5) by (auto simp: block_in_def)
  next
    case False
    then have "best' = best"
      using assms(8) by (auto simp: scan_cell_def best k_def Let_def)
    then show ?thesis using assms(7) by simp
  qed
  show ?thesis using 1 2 by simp
qed

lemma scan_row_bounds:
  assumes "j2len_bounded alo blo bhi i j2len" "alo \<le> i" "i < ahi"
  shows "j2len_bounded alo blo bhi (Suc i) new \<Longrightarrow> block_in alo ahi blo bhi best \<Longrightarrow>
     scan_row i blo bhi j2len js (new, best) = (new', best') \<Longrightarrow>
     j2len_bounded alo blo bhi (Suc i) new' \<and> block_in alo ahi blo bhi best'"
proof (induction js arbitrary: new best)
  case Nil
  then show ?case by simp
next
  case (Cons j js)
  show ?case
  proof (cases "j < blo")
    case True
    with Cons show ?thesis by simp
  next
    case False
    note nlo = this
    show ?thesis
    proof (cases "j \<ge> bhi")
      case True
      with Cons nlo show ?thesis by simp
    next
      case False
      obtain n1 b1 where c: "scan_cell i j2len j (new, best) = (n1, b1)"
        by (cases "scan_cell i j2len j (new, best)")
      have "j2len_bounded alo blo bhi (Suc i) n1 \<and> block_in alo ahi blo bhi b1"
        using scan_cell_bounds[OF assms(1,2,3) _ _ Cons.prems(1,2) c] nlo False by simp
      moreover have "scan_row i blo bhi j2len js (n1, b1) = (new', best')"
        using Cons.prems(3) nlo False c by simp
      ultimately show ?thesis using Cons.IH by blast
    qed
  qed
qed

lemma j2len_bounded_empty: "j2len_bounded alo blo bhi i Map.empty"
  by (simp add: j2len_bounded_def)

lemma scan_step_bounds:
  assumes "j2len_bounded alo blo bhi i j2len" "alo \<le> i" "i < ahi" "block_in alo ahi blo bhi best"
    and "scan_step a b2j blo bhi i (j2len, best) = (new', best')"
  shows "j2len_bounded alo blo bhi (Suc i) new' \<and> block_in alo ahi blo bhi best'"
proof -
  obtain bi bj bk where best: "best = (bi, bj, bk)" by (cases best)
  have "scan_row i blo bhi j2len (b2j_get b2j (a ! i)) (Map.empty, best) = (new', best')"
    using assms(5) by (simp add: scan_step_def best)
  from scan_row_bounds[OF assms(1,2,3) j2len_bounded_empty assms(4) this] show ?thesis .
qed

lemma fold_scan_step_bounds:
  "j2len_bounded alo blo bhi i j2len \<Longrightarrow> alo \<le> i \<Longrightarrow> i + n \<le> ahi \<Longrightarrow> block_in alo ahi blo bhi best \<Longrightarrow>
   fold (scan_step a b2j blo bhi) [i..<i + n] (j2len, best) = (new', best') \<Longrightarrow>
   j2len_bounded alo blo bhi (i + n) new' \<and> block_in alo ahi blo bhi best'"
proof (induction n arbitrary: i j2len best)
  case 0
  then show ?case by simp
next
  case (Suc n)
  obtain n1 b1 where s: "scan_step a b2j blo bhi i (j2len, best) = (n1, b1)"
    by (cases "scan_step a b2j blo bhi i (j2len, best)")
  have "j2len_bounded alo blo bhi (Suc i) n1 \<and> block_in alo ahi blo bhi b1"
    using scan_step_bounds[OF Suc.prems(1,2) _ Suc.prems(4) s] Suc.prems(3) by simp
  moreover have "[i..<i + Suc n] = i # [Suc i..<Suc i + n]"
    by (simp add: upt_conv_Cons)
  then have "fold (scan_step a b2j blo bhi) [Suc i..<Suc i + n] (n1, b1) = (new', best')"
    using Suc.prems(5) s by (simp del: upt_Suc)
  ultimately have "j2len_bounded alo blo bhi (Suc i + n) new' \<and> block_in alo ahi blo bhi best'"
    using Suc.IH[of "Suc i" n1 b1] Suc.prems(2,3) by simp
  then show ?case by simp
qed

lemma scan_bounds: "block_in alo ahi blo bhi (snd (scan a b2j alo ahi blo bhi))"
proof (cases "alo \<le> ahi")
  case True
  obtain new' best' where s: "scan a b2j alo ahi blo bhi = (new', best')"
    by (cases "scan a b2j alo ahi blo bhi")
  have "fold (scan_step a b2j blo bhi) [alo..<alo + (ahi - alo)] (Map.empty, alo, blo, 0) = (new', best')"
    using s True by (simp add: scan_def)
  from fold_scan_step_bounds[OF j2len_bounded_empty _ _ _ this, of alo ahi]
  show ?thesis using True s by (simp add: block_in_def)
next
  case False
  then show ?thesis by (simp add: scan_def block_in_def)
qed

lemma extend_left_bounds:
  "block_in alo ahi blo bhi best \<Longrightarrow> block_in alo ahi blo bhi (extend_left a b ok alo blo best)"
proof (induction a b ok alo blo best rule: extend_left.induct)
  case (1 a b ok alo blo besti bestj bestsize)
  show ?case
  proof (cases "besti > alo \<and> bestj > blo \<and> ok (b ! (bestj - 1)) \<and> a ! (besti - 1) = b ! (bestj - 1)")
    case True
    have "block_in alo ahi blo bhi (besti - 1, bestj - 1, bestsize + 1)"
      using "1.prems" True by (auto simp: block_in_def)
    then show ?thesis using "1.IH" True by (subst extend_left.simps) simp
  next
    case False
    then show ?thesis using "1.prems" by (subst extend_left.simps) auto
  qed
qed

lemma extend_right_bounds:
  "block_in alo ahi blo bhi best \<Longrightarrow> block_in alo ahi blo bhi (extend_right a b ok ahi bhi best)"
proof (induction a b ok ahi bhi best rule: extend_right.induct)
  case (1 a b ok ahi bhi besti bestj bestsize)
  show ?case
  proof (cases "besti + bestsize < ahi \<and> bestj + bestsize < bhi \<and> ok (b ! (bestj + bestsize))
         \<and> a ! (besti + bestsize) = b ! (bestj + bestsize)")
    case True
    have "block_in alo ahi blo bhi (besti, bestj, bestsize + 1)"
      using "1.prems" True by (auto simp: block_in_def)
    then show ?thesis using "1.IH" True by (subst extend_right.simps) simp
  next
    case False
    then show ?thesis using "1.prems" by (subst extend_right.simps) auto
  qed
qed

lemma find_longest_match_bounds:
  "block_in alo ahi blo bhi (find_longest_match a b b2j bjunk alo ahi blo bhi)"
  unfolding find_longest_match_def Let_def
  by (intro extend_left_bounds extend_right_bounds scan_bounds)

subsection \<open>\<open>get_matching_blocks\<close>\<close>

text \<open>
  \<^verbatim>\<open>
  queue = [(0, la, 0, lb)]
  matching_blocks = []
  while queue:
      alo, ahi, blo, bhi = queue.pop()
      i, j, k = x = self.find_longest_match(alo, ahi, blo, bhi)
      if k:
          matching_blocks.append(x)
          if alo < i and blo < j: queue.append((alo, i, blo, j))
          if i+k < ahi and j+k < bhi: queue.append((i+k, ahi, j+k, bhi))
  \<close>
  \<open>queue.pop()\<close> takes the last element of the Python list, so the model keeps the
  queue with its last element first: the right remainder, appended last, is in front.
\<close>

type_synonym range4 = "nat \<times> nat \<times> nat \<times> nat"

definition queue_weight :: "range4 list \<Rightarrow> nat" where
  "queue_weight queue = (\<Sum>(alo, ahi, blo, bhi) \<leftarrow> queue. 2 * (ahi - alo) + 1)"

function gmb_loop ::
  "'a list \<Rightarrow> 'a list \<Rightarrow> ('a \<rightharpoonup> nat list) \<Rightarrow> 'a set \<Rightarrow> range4 list \<Rightarrow> block list \<Rightarrow> block list" where
  "gmb_loop a b b2j bjunk [] matching_blocks = matching_blocks"
| "gmb_loop a b b2j bjunk ((alo, ahi, blo, bhi) # queue) matching_blocks =
     (case find_longest_match a b b2j bjunk alo ahi blo bhi of (i, j, k) \<Rightarrow>
        if k \<noteq> 0 then
          gmb_loop a b b2j bjunk
            ((if i + k < ahi \<and> j + k < bhi then [(i + k, ahi, j + k, bhi)] else [])
               @ (if alo < i \<and> blo < j then [(alo, i, blo, j)] else []) @ queue)
            (matching_blocks @ [(i, j, k)])
        else gmb_loop a b b2j bjunk queue matching_blocks)"
  by pat_completeness auto
termination
  apply (relation "measure (\<lambda>(a, b, b2j, bjunk, queue, mb). queue_weight queue)")
    apply simp
  subgoal for a b b2j bjunk alo ahi blo bhi queue mb i y j k
    using find_longest_match_bounds[of alo ahi blo bhi a b b2j bjunk]
    by (auto simp: queue_weight_def block_in_def)
  subgoal by (auto simp: queue_weight_def)
  done

text \<open>
  The blocks are sorted and adjacent blocks are collapsed:
  \<^verbatim>\<open>
  matching_blocks.sort()
  i1 = j1 = k1 = 0
  non_adjacent = []
  for i2, j2, k2 in matching_blocks:
      if i1 + k1 == i2 and j1 + k1 == j2:
          k1 += k2
      else:
          if k1: non_adjacent.append((i1, j1, k1))
          i1, j1, k1 = i2, j2, k2
  if k1: non_adjacent.append((i1, j1, k1))
  non_adjacent.append( (la, lb, 0) )
  \<close>
\<close>

definition collapse_step :: "block \<Rightarrow> block \<times> block list \<Rightarrow> block \<times> block list" where
  "collapse_step = (\<lambda>(i2, j2, k2) ((i1, j1, k1), non_adjacent).
     if i1 + k1 = i2 \<and> j1 + k1 = j2 then ((i1, j1, k1 + k2), non_adjacent)
     else ((i2, j2, k2), if k1 \<noteq> 0 then non_adjacent @ [(i1, j1, k1)] else non_adjacent))"

definition collapse :: "block list \<Rightarrow> block list" where
  "collapse matching_blocks =
     (case fold collapse_step matching_blocks ((0, 0, 0), []) of
        ((i1, j1, k1), non_adjacent) \<Rightarrow>
          if k1 \<noteq> 0 then non_adjacent @ [(i1, j1, k1)] else non_adjacent)"

definition get_matching_blocks ::
  "'a list \<Rightarrow> 'a list \<Rightarrow> ('a \<rightharpoonup> nat list) \<Rightarrow> 'a set \<Rightarrow> block list" where
  "get_matching_blocks a b b2j bjunk =
     (let la = length a; lb = length b;
          matching_blocks = gmb_loop a b b2j bjunk [(0, la, 0, lb)] []
      in collapse (sort matching_blocks) @ [(la, lb, 0)])"

subsection \<open>\<open>ratio\<close> and \<open>calculate_similarity\<close>\<close>

text \<open>
  \<^verbatim>\<open>
  def _calculate_ratio(matches, length):
      if length: return 2.0 * matches / length
      return 1.0

  def ratio(self):
      matches = sum(triple[-1] for triple in self.get_matching_blocks())
      return _calculate_ratio(matches, len(self.a) + len(self.b))
  \<close>
  The result is a Python float. The model computes it as an exact real number; the
  number of matched characters, from which it is computed, is a natural number and is
  given a name of its own (\<open>matches\<close>).
\<close>

definition calculate_ratio :: "nat \<Rightarrow> nat \<Rightarrow> real" where
  "calculate_ratio matches len = (if len \<noteq> 0 then 2 * real matches / real len else 1)"

definition block_size :: "block \<Rightarrow> nat" where
  "block_size = (\<lambda>(i, j, k). k)"

definition matches :: "'a list \<Rightarrow> 'a list \<Rightarrow> nat" where
  "matches a b = sum_list (map block_size (get_matching_blocks a b (chain_b b) {}))"

definition ratio :: "'a list \<Rightarrow> 'a list \<Rightarrow> real" where
  "ratio a b = calculate_ratio (matches a b) (length a + length b)"

definition calculate_similarity :: "string \<Rightarrow> string \<Rightarrow> real" where
  "calculate_similarity text1 text2 = ratio text1 text2 * 100"

section \<open>Properties of the similarity score\<close>

text \<open>
  Claim C10. When both texts are empty the score is 100: the matcher finds no block,
  and \<open>_calculate_ratio\<close> answers 1.0 for a total length of zero.
\<close>

theorem similarity_empty_empty: "calculate_similarity [] [] = 100"
  by code_simp

end
